theory Spec2Isabelle
  imports Main
begin

section \<open>Python strings\<close>

text \<open>
  A Python \<open>str\<close> is modelled as a \<open>string\<close>, one \<open>char\<close> per character: a \<open>char\<close> is
  a code point below 256. On these code points \<open>str.isspace\<close>, which \<open>strip\<close> and
  \<open>split\<close> use, holds of 0x09 to 0x0D (tab, line feed, vertical tab, form feed, carriage
  return), of 0x1C to 0x20 (the four separators and the blank), of 0x85 (next line) and
  of 0xA0 (no-break space); \<open>str.lower\<close> maps \<open>A..Z\<close> to \<open>a..z\<close> and the capital
  letters 0xC0 to 0xDE, the multiplication sign 0xD7 apart, to the letter 0x20 above.
\<close>

definition isspace :: "char \<Rightarrow> bool" where
  "isspace c = (c \<in> set [CHR 0x09, CHR 0x0A, CHR 0x0B, CHR 0x0C, CHR 0x0D,
                          CHR 0x1C, CHR 0x1D, CHR 0x1E, CHR 0x1F, CHR 0x20,
                          CHR 0x85, CHR 0xA0])"

definition upper_letters :: string where
  "upper_letters = ''ABCDEFGHIJKLMNOPQRSTUVWXYZ'' @
     [CHR 0xC0, CHR 0xC1, CHR 0xC2, CHR 0xC3, CHR 0xC4, CHR 0xC5, CHR 0xC6, CHR 0xC7,
      CHR 0xC8, CHR 0xC9, CHR 0xCA, CHR 0xCB, CHR 0xCC, CHR 0xCD, CHR 0xCE, CHR 0xCF,
      CHR 0xD0, CHR 0xD1, CHR 0xD2, CHR 0xD3, CHR 0xD4, CHR 0xD5, CHR 0xD6,
      CHR 0xD8, CHR 0xD9, CHR 0xDA, CHR 0xDB, CHR 0xDC, CHR 0xDD, CHR 0xDE]"

definition lower_letters :: string where
  "lower_letters = ''abcdefghijklmnopqrstuvwxyz'' @
     [CHR 0xE0, CHR 0xE1, CHR 0xE2, CHR 0xE3, CHR 0xE4, CHR 0xE5, CHR 0xE6, CHR 0xE7,
      CHR 0xE8, CHR 0xE9, CHR 0xEA, CHR 0xEB, CHR 0xEC, CHR 0xED, CHR 0xEE, CHR 0xEF,
      CHR 0xF0, CHR 0xF1, CHR 0xF2, CHR 0xF3, CHR 0xF4, CHR 0xF5, CHR 0xF6,
      CHR 0xF8, CHR 0xF9, CHR 0xFA, CHR 0xFB, CHR 0xFC, CHR 0xFD, CHR 0xFE]"

definition lower_char :: "char \<Rightarrow> char" where
  "lower_char c =
     (case map_of (zip upper_letters lower_letters) c of
        None \<Rightarrow> c
      | Some l \<Rightarrow> l)"

definition lower :: "string \<Rightarrow> string" where
  "lower s = map lower_char s"

definition lstrip :: "string \<Rightarrow> string" where
  "lstrip s = dropWhile isspace s"

definition rstrip :: "string \<Rightarrow> string" where
  "rstrip s = rev (dropWhile isspace (rev s))"

definition strip :: "string \<Rightarrow> string" where
  "strip s = rstrip (lstrip s)"

text \<open>\<open>s.rstrip(chars)\<close>: every trailing character that occurs in \<open>chars\<close> is removed.\<close>

definition rstrip_chars :: "string \<Rightarrow> string \<Rightarrow> string" where
  "rstrip_chars chars s = rev (dropWhile (\<lambda>c. c \<in> set chars) (rev s))"

text \<open>
  \<open>s.split()\<close> with no separator: the text is scanned once, \<open>cur\<close> is the token being
  read; a whitespace character ends it, and empty tokens are never produced.
\<close>

fun split_scan :: "string \<Rightarrow> string \<Rightarrow> string list" where
  "split_scan cur [] = (if cur = [] then [] else [cur])"
| "split_scan cur (c # cs) =
     (if isspace c then (if cur = [] then split_scan [] cs else cur # split_scan [] cs)
      else split_scan (cur @ [c]) cs)"

definition split :: "string \<Rightarrow> string list" where
  "split s = split_scan [] s"

text \<open>\<open>kw in s\<close> on strings: \<open>kw\<close> occurs in \<open>s\<close> as a contiguous run.\<close>

primrec str_in :: "string \<Rightarrow> string \<Rightarrow> bool" where
  "str_in kw [] = (kw = [])"
| "str_in kw (c # cs) = (take (length kw) (c # cs) = kw \<or> str_in kw cs)"

text \<open>\<open>sep.join(xs)\<close>.\<close>

fun join :: "string \<Rightarrow> string list \<Rightarrow> string" where
  "join sep [] = []"
| "join sep [x] = x"
| "join sep (x # y # ys) = x @ sep @ join sep (y # ys)"

section \<open>Exceptions\<close>

datatype exn =
    NoSuchElementException
  | TimeoutException
  | WebDriverException
  | IndexError
  | MissingSchema
  | ConnectionError
  | HTTPError
  | UnidentifiedImageError
  | OSError

text \<open>\<open>xs[0]\<close> raises \<open>IndexError\<close> on the empty list.\<close>

fun item0 :: "'a list \<Rightarrow> exn + 'a" where
  "item0 [] = Inl IndexError"
| "item0 (x # xs) = Inr x"

section \<open>Price and stock flag (lines 87 to 90 of \<open>scrape_products\<close>)\<close>

text \<open>
  \<open>price_text = <element>.text.strip()\<close>, \<open>price = price_text.split()[0]\<close>, applied to
  the text of the price element.
\<close>

definition price_of :: "string \<Rightarrow> exn + string" where
  "price_of element_text = (let price_text = strip element_text in item0 (split price_text))"

text \<open>
  \<open>availability_text = <element>.text.lower()\<close>,
  \<open>in_stock = "YES" if "lager" in availability_text else "NO"\<close>.
\<close>

definition in_stock_of :: "string \<Rightarrow> string" where
  "in_stock_of element_text =
     (let availability_text = lower element_text
      in if str_in ''lager'' availability_text then ''YES'' else ''NO'')"

text \<open>
  The specification's reading of the two fields. The first whitespace-delimited token of
  a text: skip the leading whitespace, then read up to the next whitespace character.
\<close>

definition first_token :: "string \<Rightarrow> string" where
  "first_token txt = takeWhile (\<lambda>c. \<not> isspace c) (dropWhile isspace txt)"

text \<open>
  The keyword occurs in the text under case-insensitive comparison: some window of the
  text, as long as the keyword, equals the keyword once both are lower-cased.
\<close>

definition ci_occurs :: "string \<Rightarrow> string \<Rightarrow> bool" where
  "ci_occurs kw txt =
     (\<exists>i \<le> length txt. lower (take (length kw) (drop i txt)) = lower kw)"


section \<open>Decimal numerals and paths\<close>

text \<open>\<open>str(n)\<close> for a natural number, as the f-string \<open>f"{idx}.webp"\<close> formats it.\<close>

definition digit_char :: "nat \<Rightarrow> char" where
  "digit_char d = ''0123456789'' ! d"

fun str_nat :: "nat \<Rightarrow> string" where
  "str_nat n = (if n < 10 then [digit_char n] else str_nat (n div 10) @ [digit_char (n mod 10)])"

declare str_nat.simps [simp del]

text \<open>
  \<open>os.path.join(a, b)\<close> of \<open>posixpath\<close>: an absolute \<open>b\<close> replaces \<open>a\<close>; otherwise
  \<open>b\<close> is appended, after a separator unless \<open>a\<close> is empty or ends with one.
\<close>

definition path_join :: "string \<Rightarrow> string \<Rightarrow> string" where
  "path_join a b =
     (if take 1 b = ''/'' then b
      else if a = [] \<or> last a = CHR ''/'' then a @ b
      else a @ ''/'' @ b)"

section \<open>Configuration\<close>

definition LISTING_URL :: string where
  "LISTING_URL = ''https://hedlundgruppen.gung.io/categories/sAllaProdukterCult?limit=288''"

text \<open>\<open>PRODUCT_URL_TEMPLATE.format(sku=sku)\<close>.\<close>

definition PRODUCT_URL :: "string \<Rightarrow> string" where
  "PRODUCT_URL sku = ''https://hedlundgruppen.gung.io/product/'' @ sku"

definition OUTPUT_DIR :: string where
  "OUTPUT_DIR = ''output''"

definition MANUAL_LOGIN_WAIT :: nat where
  "MANUAL_LOGIN_WAIT = 10"

section \<open>The world the script runs in\<close>

type_synonym bytes = "nat list"

text \<open>
  A product page, as the driver's queries see it. For each CSS selector the script uses:
  the text of the first matching element (\<open>None\<close> when \<open>find_element\<close> would raise
  \<open>NoSuchElementException\<close>), or the texts of all matching elements for
  \<open>find_elements\<close>. The attribute table is its rows, each the texts of its \<open>td\<close> cells.
  A \<open>src\<close> attribute read by \<open>get_attribute\<close> is \<open>None\<close> when the attribute is absent.
  For each thumbnail, in DOM order, \<open>thumbnails\<close> gives what the three driver calls of
  the loop body (click, find the main image, read its \<open>src\<close>) come to: an exception, or
  the \<open>src\<close> of the main image after the click.
\<close>

record page =
  h1_product_name :: "string option"
  product_description :: "string list"
  price_span :: "string option"
  availability_a :: "string option"
  attribute_table :: "string list list option"
  image_container_img :: "string option option"
  thumbnails :: "(exn + string option) list"

record response =
  status_code :: nat
  content :: bytes

text \<open>
  A PIL image: what \<open>Image.open\<close> decoded, with its mode, or the result of
  \<open>convert(mode)\<close> on an image. The mode is a string, as in PIL.
\<close>

datatype image = Decoded string bytes | Converted string image

fun mode :: "image \<Rightarrow> string" where
  "mode (Decoded m d) = m"
| "mode (Converted m img) = m"

text \<open>
  What a file holds: a text, or an image saved in a format with its \<open>optimize\<close> flag.
\<close>

datatype file_content = Text string | Encoded string bool image

text \<open>
  The environment of a run. \<open>launch\<close>: the exception \<open>webdriver.Chrome\<close> raises, if
  any. \<open>navigate url\<close>: the exception \<open>driver.get(url)\<close> raises, if any.
  \<open>scroll_heights k\<close>: the \<open>k\<close>-th value read from \<open>document.body.scrollHeight\<close> on the
  listing page. \<open>product_cards\<close>: for each product card of the listing once scrolling has
  stopped, the text of its \<open>small span\<close>, \<open>None\<close> when the card has none.
  \<open>site url\<close>: the product page at \<open>url\<close>. \<open>http_get url\<close>: the outcome of
  \<open>requests.get(url, timeout=30)\<close>. \<open>image_open b\<close>: the outcome of \<open>Image.open\<close> on
  the bytes \<open>b\<close>. \<open>image_load img\<close>: the exception that loading the pixels of \<open>img\<close>
  raises, if any, when \<open>convert\<close> forces it. \<open>mkdir path\<close>: the exception
  \<open>os.makedirs(path, exist_ok=True)\<close> raises, if any. \<open>write_outcome path c old\<close>:
  what writing the content \<open>c\<close> to \<open>path\<close> comes to when \<open>old\<close> is there before, for
  \<open>img.save\<close> as for \<open>open\<close> and \<open>f.write\<close>: \<open>None\<close> when it succeeds, or the
  exception it raises with what it leaves at the path.
\<close>

record env =
  launch :: "exn option"
  navigate :: "string \<Rightarrow> exn option"
  scroll_heights :: "nat \<Rightarrow> nat"
  product_cards :: "string option list"
  site :: "string \<Rightarrow> page"
  http_get :: "string \<Rightarrow> exn + response"
  image_open :: "bytes \<Rightarrow> exn + image"
  image_load :: "image \<Rightarrow> exn option"
  mkdir :: "string \<Rightarrow> exn option"
  write_outcome ::
    "string \<Rightarrow> file_content \<Rightarrow> file_content option \<Rightarrow> (exn \<times> file_content option) option"

text \<open>
  What the script changes: the directories made, the files written, the browser session,
  the URLs the browser was sent to, and the lines printed.
\<close>

datatype session = NoSession | Active | Released

datatype message =
    Opened_listing nat
  | Found_products nat
  | No_description string
  | No_main_image string
  | No_thumbnails string
  | Thumbnail_failed string exn
  | No_image_urls string
  | Image_failed "string option" string exn
  | Saved nat nat string nat

record state =
  dirs :: "string set"
  files :: "string \<rightharpoonup> file_content"
  browser :: session
  visited :: "string list"
  stdout :: "message list"

definition print :: "message \<Rightarrow> state \<Rightarrow> state" where
  "print m s = s\<lparr>stdout := stdout s @ [m]\<rparr>"

text \<open>\<open>os.makedirs(path, exist_ok=True)\<close>.\<close>

definition makedirs :: "env \<Rightarrow> string \<Rightarrow> state \<Rightarrow> (exn + unit) \<times> state" where
  "makedirs env path s =
     (case mkdir env path of
        Some e \<Rightarrow> (Inl e, s)
      | None \<Rightarrow> (Inr (), s\<lparr>dirs := insert path (dirs s)\<rparr>))"

text \<open>
  Writing a file, by \<open>img.save\<close> or by \<open>open(path, "w")\<close> and \<open>f.write\<close>: the content is
  there afterwards, or the exception is raised and the path holds what the failed write
  left.
\<close>

definition write_file ::
  "env \<Rightarrow> string \<Rightarrow> file_content \<Rightarrow> state \<Rightarrow> (exn + unit) \<times> state" where
  "write_file env path c s =
     (case write_outcome env path c (files s path) of
        None \<Rightarrow> (Inr (), s\<lparr>files := (files s)(path \<mapsto> c)\<rparr>)
      | Some (e, left) \<Rightarrow> (Inl e, s\<lparr>files := (files s)(path := left)\<rparr>))"

section \<open>The driver\<close>

definition create_webdriver :: "env \<Rightarrow> state \<Rightarrow> (exn + unit) \<times> state" where
  "create_webdriver env s =
     (case launch env of
        Some e \<Rightarrow> (Inl e, s)
      | None \<Rightarrow> (Inr (), s\<lparr>browser := Active\<rparr>))"

definition driver_get :: "env \<Rightarrow> string \<Rightarrow> state \<Rightarrow> (exn + unit) \<times> state" where
  "driver_get env url s =
     (case navigate env url of
        Some e \<Rightarrow> (Inl e, s)
      | None \<Rightarrow> (Inr (), s\<lparr>visited := visited s @ [url]\<rparr>))"

definition driver_quit :: "state \<Rightarrow> state" where
  "driver_quit s = s\<lparr>browser := Released\<rparr>"

text \<open>\<open>find_element(...)\<close> on a selector whose first match, if any, is \<open>el\<close>.\<close>

fun find_element :: "'a option \<Rightarrow> exn + 'a" where
  "find_element None = Inl NoSuchElementException"
| "find_element (Some el) = Inr el"

text \<open>
  \<open>WebDriverWait(driver, 20).until(presence_of_element_located(h1.product-name))\<close>: the
  wait times out when the element never appears.
\<close>

definition wait_product_name :: "page \<Rightarrow> exn + unit" where
  "wait_product_name pg =
     (case h1_product_name pg of None \<Rightarrow> Inl TimeoutException | Some t \<Rightarrow> Inr ())"

section \<open>\<open>scroll_to_load_all\<close>\<close>

text \<open>
  The loop reads the height, scrolls, reads again, and stops when two consecutive
  readings agree; \<open>k\<close> counts the readings made so far. It returns nothing, so the
  model returns the number of readings; \<open>None\<close> is a loop that never stops.
\<close>

partial_function (option) scroll_loop :: "(nat \<Rightarrow> nat) \<Rightarrow> nat \<Rightarrow> nat \<Rightarrow> nat option" where
  "scroll_loop heights k last_height =
     (let new_height = heights k
      in if new_height = last_height then Some (Suc k)
         else scroll_loop heights (Suc k) new_height)"

declare scroll_loop.simps [code]

definition scroll_to_load_all :: "(nat \<Rightarrow> nat) \<Rightarrow> nat option" where
  "scroll_to_load_all heights = (let last_height = heights 0 in scroll_loop heights 1 last_height)"

section \<open>\<open>convert_to_webp\<close>\<close>

text \<open>\<open>img.convert(m)\<close>: it loads the pixels, which can raise, and gives the converted image.\<close>

definition convert :: "env \<Rightarrow> string \<Rightarrow> image \<Rightarrow> exn + image" where
  "convert env m img = (case image_load env img of Some e \<Rightarrow> Inl e | None \<Rightarrow> Inr (Converted m img))"

text \<open>\<open>img.save(output_path, format=fmt, optimize=opt)\<close>.\<close>

definition save ::
  "env \<Rightarrow> image \<Rightarrow> string \<Rightarrow> string \<Rightarrow> bool \<Rightarrow> state \<Rightarrow> (exn + unit) \<times> state" where
  "save env img output_path fmt opt s = write_file env output_path (Encoded fmt opt img) s"

definition convert_to_webp ::
  "env \<Rightarrow> bytes \<Rightarrow> string \<Rightarrow> state \<Rightarrow> (exn + unit) \<times> state" where
  "convert_to_webp env image_bytes output_path s =
     (case image_open env image_bytes of
        Inl e \<Rightarrow> (Inl e, s)
      | Inr img \<Rightarrow>
          (case (if mode img \<in> set [''RGBA'', ''LA''] then convert env ''RGBA'' img
                 else convert env ''RGB'' img) of
             Inl e \<Rightarrow> (Inl e, s)
           | Inr img' \<Rightarrow> save env img' output_path ''WEBP'' True s))"

text \<open>
  The specification's "has an alpha channel", read on PIL's modes: the modes PIL itself
  lists as carrying alpha (\<open>LA\<close>, \<open>La\<close>, \<open>PA\<close>, \<open>RGBA\<close>, \<open>RGBa\<close>).
\<close>

definition has_alpha_channel :: "image \<Rightarrow> bool" where
  "has_alpha_channel img = (mode img \<in> set [''LA'', ''La'', ''PA'', ''RGBA'', ''RGBa''])"

section \<open>\<open>scrape_products\<close>: one product\<close>

record fields =
  title :: string
  description :: string
  price :: string
  in_stock :: string

text \<open>Lines 78 to 90: title, description, price and stock flag.\<close>

definition extract_fields :: "string \<Rightarrow> page \<Rightarrow> state \<Rightarrow> (exn + fields) \<times> state" where
  "extract_fields sku pg s =
     (case find_element (h1_product_name pg) of
        Inl e \<Rightarrow> (Inl e, s)
      | Inr h1 \<Rightarrow>
          (let the_title = strip h1;
               desc_elements = product_description pg;
               the_description = (if desc_elements \<noteq> [] then strip (desc_elements ! 0) else []);
               s1 = (if the_description = [] then print (No_description sku) s else s)
           in case find_element (price_span pg) of
                Inl e \<Rightarrow> (Inl e, s1)
              | Inr price_el \<Rightarrow>
                  (case price_of price_el of
                     Inl e \<Rightarrow> (Inl e, s1)
                   | Inr the_price \<Rightarrow>
                       (case find_element (availability_a pg) of
                          Inl e \<Rightarrow> (Inl e, s1)
                        | Inr avail_el \<Rightarrow>
                            (Inr \<lparr>title = the_title, description = the_description,
                                  price = the_price, in_stock = in_stock_of avail_el\<rparr>, s1)))))"

text \<open>
  A \<open>dict\<close> keeps its keys in insertion order: \<open>d[k] = v\<close> replaces the value of a key
  that is there, in place, and appends a key that is not.
\<close>

fun dict_set :: "'k \<Rightarrow> 'v \<Rightarrow> ('k \<times> 'v) list \<Rightarrow> ('k \<times> 'v) list" where
  "dict_set k v [] = [(k, v)]"
| "dict_set k v ((k', v') # d) =
     (if k' = k then (k', v) # d else (k', v') # dict_set k v d)"

text \<open>Lines 93 to 103: the attribute table.\<close>

definition row_label :: "string list \<Rightarrow> string" where
  "row_label cells = rstrip_chars '':'' (strip (cells ! 0))"

definition row_value :: "string list \<Rightarrow> string" where
  "row_value cells = strip (cells ! 1)"

fun attribute_rows ::
  "string list list \<Rightarrow> (string \<times> string) list \<Rightarrow> (string \<times> string) list" where
  "attribute_rows [] extra_attributes = extra_attributes"
| "attribute_rows (cells # rows) extra_attributes =
     (if length cells = 2
      then (let label = row_label cells; val = row_value cells
            in attribute_rows rows (dict_set label val extra_attributes))
      else attribute_rows rows extra_attributes)"

definition extract_attributes :: "page \<Rightarrow> (string \<times> string) list" where
  "extract_attributes pg =
     (case find_element (attribute_table pg) of
        Inl e \<Rightarrow> []
      | Inr rows \<Rightarrow> attribute_rows rows [])"

text \<open>Lines 106 to 130: the image URLs.\<close>

fun thumbnail_loop ::
  "string \<Rightarrow> (exn + string option) list \<Rightarrow> string option list \<Rightarrow> state \<Rightarrow>
   string option list \<times> state" where
  "thumbnail_loop sku [] image_urls s = (image_urls, s)"
| "thumbnail_loop sku (thumb # thumbs) image_urls s =
     (case thumb of
        Inl e \<Rightarrow> thumbnail_loop sku thumbs image_urls (print (Thumbnail_failed sku e) s)
      | Inr src \<Rightarrow>
          (if src \<notin> set image_urls then thumbnail_loop sku thumbs (image_urls @ [src]) s
           else thumbnail_loop sku thumbs image_urls s))"

definition gather_image_urls :: "string \<Rightarrow> page \<Rightarrow> state \<Rightarrow> string option list \<times> state" where
  "gather_image_urls sku pg s =
     (let (image_urls0, s1) =
            (case find_element (image_container_img pg) of
               Inl e \<Rightarrow> ([], print (No_main_image sku) s)
             | Inr src \<Rightarrow> ([] @ [src], s));
          s2 = (if thumbnails pg = [] then print (No_thumbnails sku) s1 else s1);
          (image_urls, s3) = thumbnail_loop sku (thumbnails pg) image_urls0 s2;
          s4 = (if image_urls = [] then print (No_image_urls sku) s3 else s3)
      in (image_urls, s4))"

text \<open>Lines 135 to 142: download and convert the images.\<close>

definition requests_get :: "env \<Rightarrow> string option \<Rightarrow> exn + response" where
  "requests_get env url = (case url of None \<Rightarrow> Inl MissingSchema | Some u \<Rightarrow> http_get env u)"

definition raise_for_status :: "response \<Rightarrow> exn + unit" where
  "raise_for_status r =
     (if 400 \<le> status_code r \<and> status_code r < 600 then Inl HTTPError else Inr ())"

definition download_image ::
  "env \<Rightarrow> string \<Rightarrow> nat \<Rightarrow> string option \<Rightarrow> state \<Rightarrow> (exn + unit) \<times> state" where
  "download_image env product_dir idx img_url s =
     (case requests_get env img_url of
        Inl e \<Rightarrow> (Inl e, s)
      | Inr response \<Rightarrow>
          (case raise_for_status response of
             Inl e \<Rightarrow> (Inl e, s)
           | Inr u \<Rightarrow>
               (let webp_path = path_join product_dir (str_nat idx @ ''.webp'')
                in convert_to_webp env (content response) webp_path s)))"

fun download_images ::
  "env \<Rightarrow> string \<Rightarrow> string \<Rightarrow> nat \<Rightarrow> string option list \<Rightarrow> state \<Rightarrow> state" where
  "download_images env sku product_dir idx [] s = s"
| "download_images env sku product_dir idx (img_url # rest) s =
     (case download_image env product_dir idx img_url s of
        (Inl e, s') \<Rightarrow>
          download_images env sku product_dir (Suc idx) rest (print (Image_failed img_url sku e) s')
      | (Inr u, s') \<Rightarrow> download_images env sku product_dir (Suc idx) rest s')"

text \<open>Lines 145 to 158: the metadata file.\<close>

definition metadata_lines :: "string \<Rightarrow> fields \<Rightarrow> (string \<times> string) list \<Rightarrow> string list" where
  "metadata_lines sku f extra_attributes =
     foldl (\<lambda>lines (label, val). lines @ [label @ '': '' @ val])
       [''SKU: '' @ sku, ''Title: '' @ title f, ''Price: '' @ price f,
        ''In stock: '' @ in_stock f, [], description f]
       extra_attributes"

definition save_metadata ::
  "env \<Rightarrow> string \<Rightarrow> string \<Rightarrow> fields \<Rightarrow> (string \<times> string) list \<Rightarrow> state \<Rightarrow>
   (exn + unit) \<times> state" where
  "save_metadata env product_dir sku f extra_attributes s =
     (let meta_file = path_join product_dir ''data.txt''
      in write_file env meta_file (Text (join [CHR 0x0A] (metadata_lines sku f extra_attributes))) s)"

text \<open>The body of the loop over the SKUs (lines 71 to 160).\<close>

definition scrape_product ::
  "env \<Rightarrow> nat \<Rightarrow> nat \<Rightarrow> string \<Rightarrow> state \<Rightarrow> (exn + unit) \<times> state" where
  "scrape_product env tot index sku s =
     (let product_url = PRODUCT_URL sku
      in case driver_get env product_url s of
           (Inl e, s1) \<Rightarrow> (Inl e, s1)
         | (Inr u, s1) \<Rightarrow>
             (let pg = site env product_url
              in case wait_product_name pg of
                   Inl e \<Rightarrow> (Inl e, s1)
                 | Inr u \<Rightarrow>
                     (case extract_fields sku pg s1 of
                        (Inl e, s2) \<Rightarrow> (Inl e, s2)
                      | (Inr f, s2) \<Rightarrow>
                          (let extra_attributes = extract_attributes pg;
                               (image_urls, s3) = gather_image_urls sku pg s2;
                               product_dir = path_join OUTPUT_DIR sku
                           in case makedirs env product_dir s3 of
                                (Inl e, s4) \<Rightarrow> (Inl e, s4)
                              | (Inr u, s4) \<Rightarrow>
                                  (let s5 = download_images env sku product_dir 1 image_urls s4
                                   in case save_metadata env product_dir sku f extra_attributes s5 of
                                        (Inl e, s6) \<Rightarrow> (Inl e, s6)
                                      | (Inr u, s6) \<Rightarrow>
                                          (Inr (), print (Saved index tot sku (length image_urls)) s6))))))"

section \<open>\<open>scrape_products\<close>: the run\<close>

text \<open>
  The list comprehension over the product cards: the first card without a \<open>small span\<close>
  raises.
\<close>

fun collect_skus :: "string option list \<Rightarrow> exn + string list" where
  "collect_skus [] = Inr []"
| "collect_skus (c # cards) =
     (case find_element c of
        Inl e \<Rightarrow> Inl e
      | Inr t \<Rightarrow> (case collect_skus cards of Inl e \<Rightarrow> Inl e | Inr skus \<Rightarrow> Inr (strip t # skus)))"

text \<open>The loop \<open>for index, sku in enumerate(skus, start=1)\<close>: an exception ends it.\<close>

fun products_loop ::
  "env \<Rightarrow> nat \<Rightarrow> nat \<Rightarrow> string list \<Rightarrow> state \<Rightarrow> (exn + unit) \<times> state" where
  "products_loop env tot index [] s = (Inr (), s)"
| "products_loop env tot index (sku # skus) s =
     (case scrape_product env tot index sku s of
        (Inl e, s') \<Rightarrow> (Inl e, s')
      | (Inr u, s') \<Rightarrow> products_loop env tot (Suc index) skus s')"

text \<open>The body of the \<open>try\<close> (lines 57 to 160).\<close>

definition run_body :: "env \<Rightarrow> state \<Rightarrow> ((exn + unit) \<times> state) option" where
  "run_body env s =
     (case driver_get env LISTING_URL s of
        (Inl e, s1) \<Rightarrow> Some (Inl e, s1)
      | (Inr u, s1) \<Rightarrow>
          (let s2 = print (Opened_listing MANUAL_LOGIN_WAIT) s1
           in case scroll_to_load_all (scroll_heights env) of
                None \<Rightarrow> None
              | Some n \<Rightarrow>
                  (case collect_skus (product_cards env) of
                     Inl e \<Rightarrow> Some (Inl e, s2)
                   | Inr skus \<Rightarrow>
                       (let tot = length skus;
                            s3 = print (Found_products tot) s2
                        in Some (products_loop env tot 1 skus s3)))))"

text \<open>
  \<open>scrape_products\<close>: the directory and the driver are made before the \<open>try\<close>; the
  \<open>finally\<close> clause quits the driver however the body ends.
\<close>

definition scrape_products :: "env \<Rightarrow> state \<Rightarrow> ((exn + unit) \<times> state) option" where
  "scrape_products env s =
     (case makedirs env OUTPUT_DIR s of
        (Inl e, s1) \<Rightarrow> Some (Inl e, s1)
      | (Inr u, s1) \<Rightarrow>
          (case create_webdriver env s1 of
             (Inl e, s2) \<Rightarrow> Some (Inl e, s2)
           | (Inr u, s2) \<Rightarrow>
               (case run_body env s2 of
                  None \<Rightarrow> None
                | Some (r, s3) \<Rightarrow> Some (r, driver_quit s3))))"

section \<open>Auxiliary definitions for the statements\<close>

text \<open>The label and value pairs of the well-formed rows (exactly two cells) of a table.\<close>

definition row_pairs :: "string list list \<Rightarrow> (string \<times> string) list" where
  "row_pairs rows =
     map (\<lambda>cells. (row_label cells, row_value cells)) (filter (\<lambda>cells. length cells = 2) rows)"

text \<open>
  The image \<open>convert_to_webp\<close> saves for a decoded image, and what one pass of the download
  loop body comes to for a URL: the exception it raises, or the image it saves.
\<close>

definition normalized :: "image \<Rightarrow> image" where
  "normalized img = Converted (if mode img = ''RGBA'' \<or> mode img = ''LA'' then ''RGBA'' else ''RGB'') img"

definition fetched :: "env \<Rightarrow> string option \<Rightarrow> exn + image" where
  "fetched env url =
     (case requests_get env url of
        Inl e \<Rightarrow> Inl e
      | Inr r \<Rightarrow>
          (case raise_for_status r of
             Inl e \<Rightarrow> Inl e
           | Inr u \<Rightarrow>
               (case image_open env (content r) of
                  Inl e \<Rightarrow> Inl e
                | Inr img \<Rightarrow>
                    (case image_load env img of Some e \<Rightarrow> Inl e | None \<Rightarrow> Inr (normalized img)))))"

text \<open>What is at a path after a write of \<open>c\<close> there, whether the write succeeds or raises.\<close>

definition after_write ::
  "env \<Rightarrow> string \<Rightarrow> file_content \<Rightarrow> file_content option \<Rightarrow> file_content option" where
  "after_write env path c old =
     (case write_outcome env path c old of None \<Rightarrow> Some c | Some (e, left) \<Rightarrow> left)"

text \<open>The state after a directory was made, and after a file was written.\<close>

definition add_dir :: "string \<Rightarrow> state \<Rightarrow> state" where
  "add_dir path s = s\<lparr>dirs := insert path (dirs s)\<rparr>"

definition put_file :: "string \<Rightarrow> file_content \<Rightarrow> state \<Rightarrow> state" where
  "put_file path c s = s\<lparr>files := (files s)(path \<mapsto> c)\<rparr>"

text \<open>
  The exception that reading the required fields of a page raises, if any: the wait for
  the title times out when there is no title element; then the price element, the first
  token of its text and the availability element are read in this order.
\<close>

definition required_field_failure :: "page \<Rightarrow> exn option" where
  "required_field_failure pg =
     (case h1_product_name pg of
        None \<Rightarrow> Some TimeoutException
      | Some h1 \<Rightarrow>
          (case price_span pg of
             None \<Rightarrow> Some NoSuchElementException
           | Some p \<Rightarrow>
               (case price_of p of
                  Inl e \<Rightarrow> Some e
                | Inr pr \<Rightarrow>
                    (case availability_a pg of
                       None \<Rightarrow> Some NoSuchElementException
                     | Some a \<Rightarrow> None))))"

text \<open>
  The entries the metadata file is said to hold, in their order: the four labelled
  fields, an empty entry, the description, and one entry per attribute.
\<close>

definition metadata_entries ::
  "string \<Rightarrow> string \<Rightarrow> string \<Rightarrow> string \<Rightarrow> string \<Rightarrow> (string \<times> string) list \<Rightarrow> string list" where
  "metadata_entries sku ttl pr stock descr attrs =
     [''SKU: '' @ sku, ''Title: '' @ ttl, ''Price: '' @ pr, ''In stock: '' @ stock, [], descr] @
     map (\<lambda>(label, val). label @ '': '' @ val) attrs"

text \<open>
  The lines of a text file: the text cut at every line feed, as \<open>text.split("\n")\<close>
  cuts it; \<open>cur\<close> is the line being read.
\<close>

fun lines_scan :: "string \<Rightarrow> string \<Rightarrow> string list" where
  "lines_scan cur [] = [cur]"
| "lines_scan cur (c # cs) =
     (if c = CHR 0x0A then cur # lines_scan [] cs else lines_scan (cur @ [c]) cs)"

definition file_lines :: "string \<Rightarrow> string list" where
  "file_lines txt = lines_scan [] txt"

text \<open>The path of the \<open>k\<close>-th image file of a product directory.\<close>

definition webp_path :: "string \<Rightarrow> nat \<Rightarrow> string" where
  "webp_path product_dir k = path_join product_dir (str_nat k @ ''.webp'')"

text \<open>Reading a decimal numeral back.\<close>

definition digit_val :: "char \<Rightarrow> nat" where
  "digit_val c = of_char c - 48"

definition nat_of_digits :: "string \<Rightarrow> nat" where
  "nat_of_digits ds = foldl (\<lambda>acc c. 10 * acc + digit_val c) 0 ds"

text \<open>A product page and a start state on which the theorems are exercised.\<close>

definition example_table :: "string list list" where
  "example_table = [[''Color:'' @ [CHR 0xA0], ''red''], [''Size'', '' L''], [''only one cell''], [''Color::'', ''blue '']]"

definition example_page :: page where
  "example_page = \<lparr>h1_product_name = Some ''Lamp'', product_description = [],
     price_span = Some ''199 kr'', availability_a = Some ''I lager'',
     attribute_table = Some example_table,
     image_container_img = Some (Some ''a.png''),
     thumbnails = [Inr (Some ''a.png''), Inr (Some ''b.png''), Inl WebDriverException, Inr (Some ''b.png'')]\<rparr>"

definition empty_state :: state where
  "empty_state = \<lparr>dirs = {}, files = Map.empty, browser = NoSession, visited = [], stdout = []\<rparr>"

text \<open>
  Environments on which the theorems are exercised. In \<open>example_env\<close> every product URL
  serves \<open>example_page\<close>, the first image URL answers 404 and the other answers an image
  that decodes in mode \<open>PA\<close> (palette with alpha). \<open>la_env\<close> decodes in mode \<open>LA\<close>
  instead. In \<open>failing_env\<close> the page of \<open>S1\<close> has no price element, in
  \<open>late_failing_env\<close> the page of \<open>S2\<close> has none, in \<open>untitled_env\<close> the page of
  \<open>S2\<close> has no title element, in \<open>blank_price_env\<close> the price element holds a blank
  and a no-break space, and in \<open>two_line_title_env\<close> the title holds a line feed. In
  \<open>failing_save_env\<close> saving an image raises and leaves nothing at the path. Nothing
  else fails in them.
\<close>

definition example_env :: env where
  "example_env = \<lparr>launch = None, navigate = (\<lambda>url. None), scroll_heights = (\<lambda>k. min k 2),
     product_cards = [Some '' S1 '', Some ''S2''],
     site = (\<lambda>url. example_page),
     http_get = (\<lambda>url. if url = ''a.png'' then Inr \<lparr>status_code = 404, content = []\<rparr>
                         else Inr \<lparr>status_code = 200, content = [7]\<rparr>),
     image_open = (\<lambda>b. Inr (Decoded ''PA'' b)),
     image_load = (\<lambda>img. None), mkdir = (\<lambda>path. None),
     write_outcome = (\<lambda>path c old. None)\<rparr>"

definition failing_env :: env where
  "failing_env = example_env\<lparr>site := (\<lambda>url. if url = PRODUCT_URL ''S1''
       then example_page\<lparr>price_span := None\<rparr> else example_page)\<rparr>"

definition late_failing_env :: env where
  "late_failing_env = example_env\<lparr>site := (\<lambda>url. if url = PRODUCT_URL ''S2''
       then example_page\<lparr>price_span := None\<rparr> else example_page)\<rparr>"

definition untitled_env :: env where
  "untitled_env = example_env\<lparr>site := (\<lambda>url. if url = PRODUCT_URL ''S2''
       then example_page\<lparr>h1_product_name := None\<rparr> else example_page)\<rparr>"

definition blank_price_env :: env where
  "blank_price_env =
     example_env\<lparr>site := (\<lambda>url. example_page\<lparr>price_span := Some [CHR 0x20, CHR 0xA0]\<rparr>)\<rparr>"

definition two_line_title_env :: env where
  "two_line_title_env =
     example_env\<lparr>site := (\<lambda>url. example_page\<lparr>h1_product_name := Some (''Big'' @ [CHR 0x0A] @ ''Lamp'')\<rparr>)\<rparr>"

definition failing_save_env :: env where
  "failing_save_env =
     example_env\<lparr>write_outcome := (\<lambda>path c old. case c of Text t \<Rightarrow> None
                                                    | Encoded fmt opt img \<Rightarrow> Some (OSError, None))\<rparr>"

definition la_env :: env where
  "la_env = example_env\<lparr>image_open := (\<lambda>b. Inr (Decoded ''LA'' b))\<rparr>"

text \<open>
  The metadata text of \<open>example_page\<close>, the state one pass over it leaves, the metadata
  text written in \<open>two_line_title_env\<close>, and the state in which the run on
  \<open>failing_env\<close> ends.
\<close>

definition example_metadata :: "string \<Rightarrow> string" where
  "example_metadata sku =
     ''SKU: '' @ sku @ [CHR 0x0A] @ ''Title: Lamp'' @ [CHR 0x0A] @ ''Price: 199'' @ [CHR 0x0A] @
     ''In stock: YES'' @ [CHR 0x0A] @ [CHR 0x0A] @ [CHR 0x0A] @
     ''Color: blue'' @ [CHR 0x0A] @ ''Size: L''"

definition example_result :: "nat \<Rightarrow> nat \<Rightarrow> string \<Rightarrow> state \<Rightarrow> state" where
  "example_result tot index sku s =
     print (Saved index tot sku 2)
       (put_file (path_join (path_join OUTPUT_DIR sku) ''data.txt'') (Text (example_metadata sku))
          (put_file (webp_path (path_join OUTPUT_DIR sku) 2)
             (Encoded ''WEBP'' True (Converted ''RGB'' (Decoded ''PA'' [7])))
             (print (Image_failed (Some ''a.png'') sku HTTPError)
                (add_dir (path_join OUTPUT_DIR sku)
                   (print (Thumbnail_failed sku WebDriverException)
                      (print (No_description sku)
                         (s\<lparr>visited := visited s @ [PRODUCT_URL sku]\<rparr>)))))))"

definition two_line_metadata :: string where
  "two_line_metadata =
     ''SKU: S1'' @ [CHR 0x0A] @ ''Title: Big'' @ [CHR 0x0A] @ ''Lamp'' @ [CHR 0x0A] @
     ''Price: 199'' @ [CHR 0x0A] @ ''In stock: YES'' @ [CHR 0x0A] @ [CHR 0x0A] @ [CHR 0x0A] @
     ''Color: blue'' @ [CHR 0x0A] @ ''Size: L''"

definition failing_run_state :: state where
  "failing_run_state = \<lparr>dirs = {''output''}, files = Map.empty, browser = Released,
     visited = [LISTING_URL, PRODUCT_URL ''S1''],
     stdout = [Opened_listing 10, Found_products 2, No_description ''S1'']\<rparr>"

section \<open>Facts about the string functions\<close>

lemma split_scan_token:
  "split_scan cur s =
     (if cur @ takeWhile (\<lambda>c. \<not> isspace c) s = [] then split_scan [] (dropWhile (\<lambda>c. \<not> isspace c) s)
      else (cur @ takeWhile (\<lambda>c. \<not> isspace c) s) # split_scan [] (dropWhile (\<lambda>c. \<not> isspace c) s))"
  by (induction s arbitrary: cur) auto

lemma split_scan_lstrip: "split_scan [] s = split_scan [] (dropWhile isspace s)"
  by (induction s) auto

lemma item0_split: "\<exists>c \<in> set s. \<not> isspace c \<Longrightarrow> item0 (split s) = Inr (first_token s)"
proof -
  assume ex: "\<exists>c \<in> set s. \<not> isspace c"
  then obtain c r where w: "dropWhile isspace s = c # r" and c: "\<not> isspace c"
    by (metis dropWhile_eq_Nil_conv hd_dropWhile list.collapse)
  have "split s = split_scan [] (c # r)"
    unfolding split_def using split_scan_lstrip [of s] w by simp
  also have "\<dots> = split_scan [c] r"
    using c by simp
  also have "\<dots> = (c # takeWhile (\<lambda>c. \<not> isspace c) r) # split_scan [] (dropWhile (\<lambda>c. \<not> isspace c) r)"
    by (subst split_scan_token) simp
  finally show ?thesis
    using w c by (simp add: first_token_def)
qed

lemma takeWhile_rstrip:
  "takeWhile (\<lambda>c. \<not> isspace c) (rstrip s) = takeWhile (\<lambda>c. \<not> isspace c) s"
proof (induction s)
  case Nil
  show ?case by (simp add: rstrip_def)
next
  case (Cons x t)
  show ?case
  proof (cases "\<forall>y \<in> set t. isspace y")
    case True
    then have "takeWhile (\<lambda>c. \<not> isspace c) t = []"
      by (cases t) auto
    with True show ?thesis
      by (simp add: rstrip_def dropWhile_append)
  next
    case False
    then have "rstrip (x # t) = x # rstrip t"
      by (auto simp: rstrip_def dropWhile_append)
    with Cons show ?thesis by simp
  qed
qed

lemma set_dropWhile_keeps: "x \<in> set xs \<Longrightarrow> \<not> P x \<Longrightarrow> x \<in> set (dropWhile P xs)"
  by (induction xs) auto

lemma set_rstrip_nonspace:
  "c \<in> set s \<Longrightarrow> \<not> isspace c \<Longrightarrow> c \<in> set (rstrip s)"
  unfolding rstrip_def using set_dropWhile_keeps [of c "rev s" isspace] by simp

lemma set_lstrip_nonspace:
  "c \<in> set s \<Longrightarrow> \<not> isspace c \<Longrightarrow> c \<in> set (lstrip s)"
  unfolding lstrip_def by (rule set_dropWhile_keeps)

lemma first_token_strip: "first_token (strip s) = first_token s"
proof -
  have "dropWhile isspace (rstrip (lstrip s)) = rstrip (lstrip s)"
  proof (cases "lstrip s")
    case Nil
    then show ?thesis by (simp add: rstrip_def)
  next
    case (Cons x t)
    then have x: "\<not> isspace x"
      unfolding lstrip_def by (metis hd_dropWhile list.sel(1) list.simps(3))
    then have "x \<in> set (rstrip (x # t))"
      by (intro set_rstrip_nonspace) simp_all
    then have "rstrip (x # t) \<noteq> []" by auto
    moreover have "hd (rstrip (x # t)) = x"
      using x by (cases "\<forall>y \<in> set t. isspace y") (auto simp: rstrip_def dropWhile_append)
    ultimately show ?thesis
      using x Cons by (cases "rstrip (x # t)") auto
  qed
  then show ?thesis
    by (simp add: first_token_def strip_def takeWhile_rstrip) (simp add: lstrip_def)
qed

lemma str_in_window:
  "str_in kw s \<longleftrightarrow> (\<exists>i \<le> length s. take (length kw) (drop i s) = kw)"
proof (induction s)
  case Nil
  show ?case by auto
next
  case (Cons c cs)
  have "(\<exists>i \<le> length (c # cs). take (length kw) (drop i (c # cs)) = kw) \<longleftrightarrow>
        take (length kw) (c # cs) = kw \<or> (\<exists>i \<le> length cs. take (length kw) (drop i cs) = kw)"
    (is "?L \<longleftrightarrow> ?A \<or> ?B")
  proof
    assume ?L
    then obtain i where i: "i \<le> length (c # cs)" "take (length kw) (drop i (c # cs)) = kw"
      by blast
    show "?A \<or> ?B"
    proof (cases i)
      case 0
      with i show ?thesis by simp
    next
      case (Suc j)
      with i have "j \<le> length cs" "take (length kw) (drop j cs) = kw" by simp_all
      then show ?thesis by blast
    qed
  next
    assume "?A \<or> ?B"
    then show ?L
    proof
      assume ?A
      then have "take (length kw) (drop 0 (c # cs)) = kw" by simp
      then show ?L by blast
    next
      assume ?B
      then obtain j where "j \<le> length cs" "take (length kw) (drop j cs) = kw" by blast
      then have "Suc j \<le> length (c # cs)" "take (length kw) (drop (Suc j) (c # cs)) = kw"
        by simp_all
      then show ?L by blast
    qed
  qed
  with Cons show ?case by simp
qed

lemma ci_occurs_lower:
  assumes "lower kw = kw"
  shows "ci_occurs kw txt = str_in kw (lower txt)"
proof -
  have "\<And>i. lower (take (length kw) (drop i txt)) = take (length kw) (drop i (lower txt))"
    by (simp add: lower_def take_map drop_map)
  moreover have "length (lower txt) = length txt"
    by (simp add: lower_def)
  ultimately show ?thesis
    unfolding ci_occurs_def str_in_window using assms by simp
qed

section \<open>Claims about the price and the stock flag\<close>

text \<open>
  C7. For every displayed price text that contains at least one non-whitespace
  character (so at least one token), the extracted price is the first
  whitespace-delimited token of that text; whatever follows it is discarded.
\<close>

theorem price_is_first_token:
  assumes "\<exists>c \<in> set price_element_text. \<not> isspace c"
  shows "price_of price_element_text = Inr (first_token price_element_text)"
proof -
  from assms obtain c where c: "c \<in> set price_element_text" "\<not> isspace c" by blast
  then have "c \<in> set (strip price_element_text)"
    unfolding strip_def by (intro set_rstrip_nonspace set_lstrip_nonspace)
  with c have "\<exists>c \<in> set (strip price_element_text). \<not> isspace c" by blast
  then have "item0 (split (strip price_element_text)) = Inr (first_token (strip price_element_text))"
    by (rule item0_split)
  then show ?thesis
    by (simp add: price_of_def first_token_strip)
qed

theorem price_is_first_token_witness:
  "price_of '' 1 299,00 SEK'' = Inr ''1'' \<and> first_token '' 1 299,00 SEK'' = ''1'' \<and>
   price_of (''1'' @ [CHR 0xA0] @ ''299,00'' @ [CHR 0xA0] @ ''SEK'') = Inr ''1''"
  using price_is_first_token [of "'' 1 299,00 SEK''"]
    price_is_first_token [of "''1'' @ [CHR 0xA0] @ ''299,00'' @ [CHR 0xA0] @ ''SEK''"]
  by (simp add: first_token_def isspace_def)

text \<open>
  C3. The stock flag is \<open>YES\<close> exactly when the keyword \<open>lager\<close> occurs somewhere in the
  availability text under case-insensitive comparison, and \<open>NO\<close> otherwise.
\<close>

theorem stock_flag_case_insensitive:
  "in_stock_of availability = (if ci_occurs ''lager'' availability then ''YES'' else ''NO'')"
proof -
  have "lower ''lager'' = ''lager''"
    by (simp add: lower_def lower_char_def upper_letters_def lower_letters_def)
  then have "ci_occurs ''lager'' availability = str_in ''lager'' (lower availability)"
    by (rule ci_occurs_lower)
  then show ?thesis
    by (simp add: in_stock_of_def)
qed

theorem stock_flag_case_insensitive_witness:
  "in_stock_of ''Finns i LAGER'' = ''YES'' \<and> ci_occurs ''lager'' ''Finns i LAGER'' \<and>
   in_stock_of ''Slut'' = ''NO'' \<and> \<not> ci_occurs ''lager'' ''Slut''"
proof -
  have a: "in_stock_of ''Finns i LAGER'' = ''YES''"
    by (simp add: in_stock_of_def lower_def lower_char_def upper_letters_def lower_letters_def)
  have b: "in_stock_of ''Slut'' = ''NO''"
    by (simp add: in_stock_of_def lower_def lower_char_def upper_letters_def lower_letters_def)
  from a stock_flag_case_insensitive [of "''Finns i LAGER''"]
  have c: "ci_occurs ''lager'' ''Finns i LAGER''"
    by (simp split: if_splits)
  from b stock_flag_case_insensitive [of "''Slut''"]
  have d: "\<not> ci_occurs ''lager'' ''Slut''"
    by (simp split: if_splits)
  from a b c d show ?thesis by simp
qed

section \<open>The image URLs\<close>

lemma thumbnail_loop_distinct:
  "distinct image_urls \<Longrightarrow> distinct (fst (thumbnail_loop sku thumbs image_urls s))"
  by (induction thumbs arbitrary: image_urls s) (auto split: sum.splits)

lemma thumbnail_loop_set:
  "set (fst (thumbnail_loop sku thumbs image_urls s)) =
     set image_urls \<union> {src. Inr src \<in> set thumbs}"
  by (induction thumbs arbitrary: image_urls s) (auto split: sum.splits)



text \<open>
  C6. The image URLs collected for a product page contain no duplicate: a \<open>src\<close> that is
  already in the list is skipped. Nothing else is dropped: the list holds exactly the
  \<open>src\<close> of the main image, if there is one, and those read after each thumbnail click
  that did not raise.
\<close>

theorem image_urls_distinct:
  "distinct (fst (gather_image_urls sku pg s)) \<and>
   set (fst (gather_image_urls sku pg s)) =
     set_option (image_container_img pg) \<union> {src. Inr src \<in> set (thumbnails pg)}"
  unfolding gather_image_urls_def
  by (cases "image_container_img pg")
     (simp_all add: Let_def split_beta thumbnail_loop_distinct thumbnail_loop_set)


lemma example_urls:
  "fst (gather_image_urls ''S1'' example_page empty_state) = [Some ''a.png'', Some ''b.png'']"
  by (simp add: gather_image_urls_def example_page_def Let_def)

theorem image_urls_distinct_witness:
  "fst (gather_image_urls ''S1'' example_page empty_state) = [Some ''a.png'', Some ''b.png''] \<and>
   distinct (fst (gather_image_urls ''S1'' example_page empty_state))"
  using image_urls_distinct [of "''S1''" example_page empty_state] example_urls by simp

section \<open>The attribute table\<close>

lemma dict_set_keys:
  "map fst (dict_set k v d) = (if k \<in> fst ` set d then map fst d else map fst d @ [k])"
  by (induction d) force+

lemma map_of_dict_set: "map_of (dict_set k v d) = (map_of d)(k \<mapsto> v)"
  by (induction d) (auto simp: fun_eq_iff)

lemma attribute_rows_fold:
  "attribute_rows rows acc = fold (\<lambda>(k, v). dict_set k v) (row_pairs rows) acc"
  by (induction rows arbitrary: acc) (simp_all add: row_pairs_def)

lemma dict_set_keyset: "fst ` set (dict_set k v d) = insert k (fst ` set d)"
proof -
  have "set (map fst (dict_set k v d)) = insert k (set (map fst d))"
    unfolding dict_set_keys by auto
  then show ?thesis by simp
qed

lemma fold_dict_set_keyset:
  "fst ` set (fold (\<lambda>(k, v). dict_set k v) kvs acc) = fst ` set kvs \<union> fst ` set acc"
proof (induction kvs arbitrary: acc)
  case Nil
  show ?case by simp
next
  case (Cons kv kvs)
  obtain k v where kv: "kv = (k, v)" by (cases kv)
  show ?case
    using Cons [of "dict_set k v acc"] kv by (simp add: dict_set_keyset)
qed

lemma fold_dict_set_distinct:
  "distinct (map fst acc) \<Longrightarrow> distinct (map fst (fold (\<lambda>(k, v). dict_set k v) kvs acc))"
proof (induction kvs arbitrary: acc)
  case Nil
  then show ?case by simp
next
  case (Cons kv kvs)
  obtain k v where kv: "kv = (k, v)" by (cases kv)
  from Cons.prems have "distinct (map fst (dict_set k v acc))"
    by (simp add: dict_set_keys)
  then show ?case using Cons.IH kv by simp
qed

lemma fold_dict_set_keys_cong:
  "map fst d = map fst d' \<Longrightarrow>
   map fst (fold (\<lambda>(k, v). dict_set k v) kvs d) = map fst (fold (\<lambda>(k, v). dict_set k v) kvs d')"
proof (induction kvs arbitrary: d d')
  case Nil
  then show ?case by simp
next
  case (Cons kv kvs)
  obtain k v where kv: "kv = (k, v)" by (cases kv)
  from Cons.prems have "set (map fst d) = set (map fst d')"
    by simp
  then have "fst ` set d = fst ` set d'"
    by simp
  with Cons.prems have "map fst (dict_set k v d) = map fst (dict_set k v d')"
    by (simp add: dict_set_keys)
  then have "map fst (fold (\<lambda>(k, v). dict_set k v) kvs (dict_set k v d)) =
             map fst (fold (\<lambda>(k, v). dict_set k v) kvs (dict_set k v d'))"
    by (rule Cons.IH)
  then show ?case using kv by simp
qed

lemma map_of_fold_dict_set:
  "map_of (fold (\<lambda>(k, v). dict_set k v) kvs acc) = map_of acc ++ map_of (rev kvs)"
proof (induction kvs arbitrary: acc)
  case Nil
  show ?case by simp
next
  case (Cons kv kvs)
  obtain k v where kv: "kv = (k, v)" by (cases kv)
  have "fold (\<lambda>(k, v). dict_set k v) (kv # kvs) acc = fold (\<lambda>(k, v). dict_set k v) kvs (dict_set k v acc)"
    using kv by simp
  then have "map_of (fold (\<lambda>(k, v). dict_set k v) (kv # kvs) acc) =
             map_of (dict_set k v acc) ++ map_of (rev kvs)"
    using Cons [of "dict_set k v acc"] by simp
  also have "\<dots> = (map_of acc)(k \<mapsto> v) ++ map_of (rev kvs)"
    by (simp only: map_of_dict_set)
  also have "\<dots> = map_of acc ++ ([k \<mapsto> v] ++ map_of (rev kvs))"
    by (rule ext) (simp add: map_add_def split: option.splits)
  also have "[k \<mapsto> v] ++ map_of (rev kvs) = map_of (rev (kv # kvs))"
    using kv by simp
  finally show ?case .
qed

lemma distinct_keys_one_entry:
  "distinct (map fst d) \<Longrightarrow> k \<in> fst ` set d \<Longrightarrow> length (filter (\<lambda>(l, v). l = k) d) = 1"
proof (induction d)
  case Nil
  then show ?case by simp
next
  case (Cons kv d)
  obtain l v where kv: "kv = (l, v)" by (cases kv)
  show ?case
  proof (cases "l = k")
    case True
    with Cons.prems kv have "k \<notin> fst ` set d" by simp
    then have "filter (\<lambda>(l, v). l = k) d = []"
      by (force simp: filter_empty_conv)
    with True kv show ?thesis by simp
  next
    case False
    with Cons kv show ?thesis by auto
  qed
qed


lemma row_pairs_append: "row_pairs (xs @ ys) = row_pairs xs @ row_pairs ys"
  by (simp add: row_pairs_def)

lemma row_pairs_Cons:
  "row_pairs (r # rs) = (if length r = 2 then (row_label r, row_value r) # row_pairs rs else row_pairs rs)"
  by (simp add: row_pairs_def)

lemma row_pairs_keys:
  "fst ` set (row_pairs rows) = row_label ` {r \<in> set rows. length r = 2}"
  by (auto simp: row_pairs_def image_iff)


text \<open>
  C10. When two well-formed rows (exactly two cells) of the attribute table, row \<open>i\<close>
  before row \<open>j\<close>, give the same label after stripping, and no later well-formed row
  gives that label again, the attribute mapping has exactly one entry for the label, its
  value is that of row \<open>j\<close>, and the keys are in the order they would have without row
  \<open>j\<close>: the entry stays where the earlier row put it.
\<close>

theorem duplicate_label_keeps_position:
  assumes tbl: "attribute_table pg = Some rows"
    and ij: "i < j" "j < length rows"
    and wf: "length (rows ! i) = 2" "length (rows ! j) = 2"
    and same: "row_label (rows ! i) = row_label (rows ! j)"
    and last: "\<forall>k. j < k \<and> k < length rows \<and> length (rows ! k) = 2 \<longrightarrow>
                 row_label (rows ! k) \<noteq> row_label (rows ! j)"
  shows "length (filter (\<lambda>(label, val). label = row_label (rows ! j)) (extract_attributes pg)) = 1 \<and>
         map_of (extract_attributes pg) (row_label (rows ! j)) = Some (row_value (rows ! j)) \<and>
         map fst (extract_attributes pg) =
           map fst (extract_attributes (pg\<lparr>attribute_table := Some (take j rows @ drop (Suc j) rows)\<rparr>))"
proof -
  let ?f = "\<lambda>(k, v). dict_set k v"
  let ?L = "row_label (rows ! j)"
  let ?A = "row_pairs (take j rows)"
  let ?B = "row_pairs (drop (Suc j) rows)"
  have rows: "rows = take j rows @ rows ! j # drop (Suc j) rows"
    using ij by (simp add: id_take_nth_drop)
  have pairs: "row_pairs rows = ?A @ (?L, row_value (rows ! j)) # ?B"
    using wf by (subst rows) (simp add: row_pairs_append row_pairs_Cons)
  have ea: "extract_attributes pg = fold ?f (row_pairs rows) []"
    using tbl by (simp add: extract_attributes_def attribute_rows_fold)
  have ea': "extract_attributes (pg\<lparr>attribute_table := Some (take j rows @ drop (Suc j) rows)\<rparr>) =
             fold ?f (?A @ ?B) []"
    by (simp add: extract_attributes_def attribute_rows_fold row_pairs_append)
  have "rows ! i \<in> set (take j rows)"
    using ij by (metis in_set_conv_nth length_take less_trans min.absorb4 nth_take)
  then have "rows ! i \<in> {r \<in> set (take j rows). length r = 2}"
    using wf by simp
  then have "row_label (rows ! i) \<in> row_label ` {r \<in> set (take j rows). length r = 2}"
    by (rule imageI)
  then have inA: "?L \<in> fst ` set ?A"
    using same by (simp add: row_pairs_keys)
  have notB: "?L \<notin> fst ` set ?B"
  proof
    assume "?L \<in> fst ` set ?B"
    then obtain r where r: "r \<in> set (drop (Suc j) rows)" "length r = 2" "row_label r = ?L"
      by (auto simp: row_pairs_keys)
    then obtain m where m: "m < length (drop (Suc j) rows)" "drop (Suc j) rows ! m = r"
      by (auto simp: in_set_conv_nth)
    then have "Suc j + m < length rows" "rows ! (Suc j + m) = r"
      by simp_all
    with r last show False
      by (metis add_Suc less_add_Suc1)
  qed
  have keys: "fst ` set (extract_attributes pg) = fst ` set (row_pairs rows)"
    unfolding ea by (simp add: fold_dict_set_keyset)
  have "distinct (map fst (extract_attributes pg))"
    unfolding ea by (rule fold_dict_set_distinct) simp
  moreover have "?L \<in> fst ` set (extract_attributes pg)"
    unfolding keys pairs by simp
  ultimately have one: "length (filter (\<lambda>(label, val). label = ?L) (extract_attributes pg)) = 1"
    by (rule distinct_keys_one_entry)
  have "map_of (rev ?B) ?L = None"
    using notB by (simp add: map_of_eq_None_iff)
  moreover have "map_of (extract_attributes pg) = map_of [] ++ map_of (rev (row_pairs rows))"
    unfolding ea by (rule map_of_fold_dict_set)
  ultimately have val: "map_of (extract_attributes pg) ?L = Some (row_value (rows ! j))"
    unfolding pairs by (simp add: map_add_def)
  let ?d1 = "fold ?f ?A []"
  have "?L \<in> fst ` set ?d1"
    using inA by (simp add: fold_dict_set_keyset)
  then have "map fst (dict_set ?L (row_value (rows ! j)) ?d1) = map fst ?d1"
    by (simp add: dict_set_keys)
  then have "map fst (fold ?f ?B (dict_set ?L (row_value (rows ! j)) ?d1)) = map fst (fold ?f ?B ?d1)"
    by (rule fold_dict_set_keys_cong)
  then have pos: "map fst (extract_attributes pg) =
      map fst (extract_attributes (pg\<lparr>attribute_table := Some (take j rows @ drop (Suc j) rows)\<rparr>))"
    unfolding ea ea' pairs by simp
  from one val pos show ?thesis by simp
qed

lemma example_labels:
  "row_label [CHR ''C'' # CHR ''o'' # CHR ''l'' # CHR ''o'' # CHR ''r'' # CHR '':'' # [CHR 0xA0], ''red''] = ''Color''"
  "row_label [''Color::'', ''blue ''] = ''Color''"
  "row_label [''Size'', '' L''] = ''Size''"
  "row_value [CHR ''C'' # CHR ''o'' # CHR ''l'' # CHR ''o'' # CHR ''r'' # CHR '':'' # [CHR 0xA0], ''red''] = ''red''"
  "row_value [''Color::'', ''blue ''] = ''blue''"
  "row_value [''Size'', '' L''] = ''L''"
  by (simp_all add: row_label_def row_value_def strip_def lstrip_def rstrip_def rstrip_chars_def isspace_def)

lemma example_attributes:
  "extract_attributes example_page = [(''Color'', ''blue''), (''Size'', ''L'')]"
  by (simp add: extract_attributes_def example_page_def example_table_def example_labels)

theorem duplicate_label_keeps_position_witness:
  "extract_attributes example_page = [(''Color'', ''blue''), (''Size'', ''L'')] \<and>
   length (filter (\<lambda>(label, val). label = ''Color'') (extract_attributes example_page)) = 1 \<and>
   map_of (extract_attributes example_page) ''Color'' = Some ''blue'' \<and>
   map fst (extract_attributes example_page) =
     map fst (extract_attributes (example_page\<lparr>attribute_table :=
        Some [[''Color:'' @ [CHR 0xA0], ''red''], [''Size'', '' L''], [''only one cell'']]\<rparr>))"
proof -
  have tbl: "attribute_table example_page = Some example_table"
    by (simp add: example_page_def)
  have last: "\<forall>k. 3 < k \<and> k < length example_table \<and> length (example_table ! k) = 2 \<longrightarrow>
       row_label (example_table ! k) \<noteq> row_label (example_table ! 3)"
  proof -
    have "length example_table = 4" by (simp add: example_table_def)
    then show ?thesis by auto
  qed
  have "(0::nat) < 3" "3 < length example_table" "length (example_table ! 0) = 2"
       "length (example_table ! 3) = 2" "row_label (example_table ! 0) = row_label (example_table ! 3)"
    by (simp_all add: example_table_def example_labels)
  from duplicate_label_keeps_position [OF tbl this last] example_attributes
  show ?thesis
    by (simp add: example_table_def example_labels)
qed

section \<open>State bookkeeping\<close>

lemma print_simps [simp]:
  "files (print m s) = files s" "dirs (print m s) = dirs s"
  "browser (print m s) = browser s" "visited (print m s) = visited s"
  by (simp_all add: print_def)

lemma add_dir_simps [simp]:
  "files (add_dir p s) = files s" "dirs (add_dir p s) = insert p (dirs s)"
  "browser (add_dir p s) = browser s" "visited (add_dir p s) = visited s"
  "stdout (add_dir p s) = stdout s"
  by (simp_all add: add_dir_def)

lemma put_file_simps [simp]:
  "files (put_file p c s) = (files s)(p \<mapsto> c)" "dirs (put_file p c s) = dirs s"
  "browser (put_file p c s) = browser s" "visited (put_file p c s) = visited s"
  "stdout (put_file p c s) = stdout s"
  by (simp_all add: put_file_def)

lemma makedirs_cases:
  "makedirs env p s = (case mkdir env p of Some e \<Rightarrow> (Inl e, s) | None \<Rightarrow> (Inr (), add_dir p s))"
  by (simp add: makedirs_def add_dir_def split: option.splits)

lemma write_file_ok:
  "write_outcome env p c (files s p) = None \<Longrightarrow> write_file env p c s = (Inr (), put_file p c s)"
  by (simp add: write_file_def put_file_def)

lemma write_file_Inr:
  "write_file env p c s = (Inr u, s') \<Longrightarrow> s' = put_file p c s"
  by (auto simp: write_file_def put_file_def split: option.splits)

lemma write_file_fst_Inr:
  "fst (write_file env p c s) = Inr u \<Longrightarrow> after_write env p c (files s p) = Some c"
  by (auto simp: write_file_def after_write_def split: option.splits)

lemma write_file_snd [simp]:
  "files (snd (write_file env p c s)) = (files s)(p := after_write env p c (files s p))"
  "dirs (snd (write_file env p c s)) = dirs s"
  "browser (snd (write_file env p c s)) = browser s"
  "visited (snd (write_file env p c s)) = visited s"
  "stdout (snd (write_file env p c s)) = stdout s"
  by (auto simp: write_file_def after_write_def split: option.splits)

lemma driver_get_cases:
  "driver_get env url s =
     (case navigate env url of Some e \<Rightarrow> (Inl e, s) | None \<Rightarrow> (Inr (), s\<lparr>visited := visited s @ [url]\<rparr>))"
  by (simp add: driver_get_def)

lemma driver_quit_browser [simp]: "browser (driver_quit s) = Released"
  by (simp add: driver_quit_def)

section \<open>Saving one image\<close>

lemma convert_to_webp_eq:
  "convert_to_webp env b p s =
     (case image_open env b of
        Inl e \<Rightarrow> (Inl e, s)
      | Inr img \<Rightarrow>
          (case image_load env img of
             Some e \<Rightarrow> (Inl e, s)
           | None \<Rightarrow> write_file env p (Encoded ''WEBP'' True (normalized img)) s))"
  by (simp add: convert_to_webp_def normalized_def convert_def save_def
           split: sum.splits option.splits)

lemma download_image_eq:
  "download_image env product_dir idx url s =
     (case fetched env url of
        Inl e \<Rightarrow> (Inl e, s)
      | Inr img \<Rightarrow> write_file env (webp_path product_dir idx) (Encoded ''WEBP'' True img) s)"
  by (simp add: download_image_def fetched_def convert_to_webp_eq webp_path_def Let_def
           split: sum.splits option.splits)

text \<open>One pass of the loop body changes the files at its own path only.\<close>

lemma download_image_files:
  "files (snd (download_image env d idx url s)) =
     (case fetched env url of
        Inl e \<Rightarrow> files s
      | Inr img \<Rightarrow>
          (files s)(webp_path d idx :=
             after_write env (webp_path d idx) (Encoded ''WEBP'' True img) (files s (webp_path d idx))))"
  by (simp add: download_image_eq split: sum.splits)

lemma download_image_keeps:
  "dirs (snd (download_image env d idx url s)) = dirs s \<and>
   browser (snd (download_image env d idx url s)) = browser s \<and>
   visited (snd (download_image env d idx url s)) = visited s"
  by (simp add: download_image_eq split: sum.splits)

section \<open>Image file names\<close>

lemma digit_val_digit_char: "d < 10 \<Longrightarrow> digit_val (digit_char d) = d"
proof -
  assume "d < 10"
  then have "d \<in> {0, 1, 2, 3, 4, 5, 6, 7, 8, 9}" by auto
  then show ?thesis
    by (auto simp: digit_val_def digit_char_def)
qed

lemma digit_char_not_slash: "d < 10 \<Longrightarrow> digit_char d \<noteq> CHR ''/''"
proof -
  assume "d < 10"
  then have "d \<in> {0, 1, 2, 3, 4, 5, 6, 7, 8, 9}" by auto
  then show ?thesis
    by (auto simp: digit_char_def)
qed

lemma nat_of_digits_str_nat: "nat_of_digits (str_nat n) = n"
proof (induction n rule: str_nat.induct)
  case (1 n)
  show ?case
  proof (cases "n < 10")
    case True
    then show ?thesis
      by (subst str_nat.simps) (simp add: nat_of_digits_def digit_val_digit_char)
  next
    case False
    with 1 have "nat_of_digits (str_nat (n div 10)) = n div 10" by simp
    with False show ?thesis
      by (subst str_nat.simps) (simp add: nat_of_digits_def digit_val_digit_char)
  qed
qed

lemma str_nat_inj: "str_nat a = str_nat b \<Longrightarrow> a = b"
  by (metis nat_of_digits_str_nat)

lemma hd_str_nat_not_slash: "take 1 (str_nat n @ suffix) \<noteq> ''/''"
proof (induction n rule: str_nat.induct)
  case (1 n)
  show ?case
  proof (cases "n < 10")
    case True
    then show ?thesis
      by (subst str_nat.simps) (simp add: digit_char_not_slash)
  next
    case False
    with 1 have "take 1 (str_nat (n div 10) @ suffix) \<noteq> ''/''" by simp
    moreover have "str_nat (n div 10) \<noteq> []"
      by (subst str_nat.simps) simp
    ultimately show ?thesis
      using False by (subst str_nat.simps) (cases "str_nat (n div 10)"; simp)
  qed
qed

lemma webp_path_inj: "webp_path d a = webp_path d b \<Longrightarrow> a = b"
  using hd_str_nat_not_slash [of a "''.webp''"] hd_str_nat_not_slash [of b "''.webp''"]
  by (auto simp: webp_path_def path_join_def dest: str_nat_inj split: if_splits)

section \<open>The download loop\<close>

lemma download_images_other:
  "(\<forall>k < length urls. p \<noteq> webp_path d (idx + k)) \<Longrightarrow>
   files (download_images env sku d idx urls s) p = files s p"
proof (induction urls arbitrary: idx s)
  case Nil
  show ?case by simp
next
  case (Cons url urls)
  have p0: "p \<noteq> webp_path d idx"
    using Cons.prems by force
  have rest: "\<forall>k < length urls. p \<noteq> webp_path d (Suc idx + k)"
    using Cons.prems by force
  obtain r s' where step: "download_image env d idx url s = (r, s')"
    by (cases "download_image env d idx url s")
  have "files s' p = files s p"
    using download_image_files [of env d idx url s] p0 step by (simp split: sum.splits)
  then show ?case
    using Cons.IH [OF rest] step by (cases r) simp_all
qed

lemma download_images_at:
  "k < length urls \<Longrightarrow>
   files (download_images env sku d idx urls s) (webp_path d (idx + k)) =
     (case fetched env (urls ! k) of
        Inl e \<Rightarrow> files s (webp_path d (idx + k))
      | Inr img \<Rightarrow>
          after_write env (webp_path d (idx + k)) (Encoded ''WEBP'' True img)
            (files s (webp_path d (idx + k))))"
proof (induction urls arbitrary: idx s k)
  case Nil
  then show ?case by simp
next
  case (Cons url urls)
  obtain r s' where step: "download_image env d idx url s = (r, s')"
    by (cases "download_image env d idx url s")
  have s': "files s' =
     (case fetched env url of
        Inl e \<Rightarrow> files s
      | Inr img \<Rightarrow>
          (files s)(webp_path d idx :=
             after_write env (webp_path d idx) (Encoded ''WEBP'' True img) (files s (webp_path d idx))))"
    using download_image_files [of env d idx url s] step by simp
  have loop: "download_images env sku d idx (url # urls) s =
      download_images env sku d (Suc idx) urls
        (case r of Inl e \<Rightarrow> print (Image_failed url sku e) s' | Inr u \<Rightarrow> s')"
    using step by (cases r) simp_all
  let ?s'' = "case r of Inl e \<Rightarrow> print (Image_failed url sku e) s' | Inr u \<Rightarrow> s'"
  have s'': "files ?s'' = files s'"
    by (cases r) simp_all
  show ?case
  proof (cases k)
    case 0
    have "\<forall>j < length urls. webp_path d idx \<noteq> webp_path d (Suc idx + j)"
      by (auto dest: webp_path_inj)
    then have "files (download_images env sku d (Suc idx) urls ?s'') (webp_path d idx) =
                 files ?s'' (webp_path d idx)"
      by (rule download_images_other)
    with 0 loop s' s'' show ?thesis
      by (simp split: sum.splits)
  next
    case (Suc j)
    with Cons.prems have j: "j < length urls" by simp
    have ne: "webp_path d (Suc idx + j) \<noteq> webp_path d idx"
      by (auto dest: webp_path_inj)
    then have "files ?s'' (webp_path d (Suc idx + j)) = files s (webp_path d (Suc idx + j))"
      using s' s'' by (simp split: sum.splits)
    then show ?thesis
      using Cons.IH [OF j, of "Suc idx" ?s''] Suc loop by (simp split: sum.splits)
  qed
qed

lemma download_images_keeps:
  "dirs (download_images env sku d idx urls s) = dirs s \<and>
   browser (download_images env sku d idx urls s) = browser s \<and>
   visited (download_images env sku d idx urls s) = visited s"
proof (induction urls arbitrary: idx s)
  case Nil
  show ?case by simp
next
  case (Cons url urls)
  obtain r s' where step: "download_image env d idx url s = (r, s')"
    by (cases "download_image env d idx url s")
  with download_image_keeps [of env d idx url s]
  have "dirs s' = dirs s \<and> browser s' = browser s \<and> visited s' = visited s" by simp
  then show ?case
    using Cons.IH step by (cases r) simp_all
qed

section \<open>One product\<close>

lemma metadata_lines_eq:
  "metadata_lines sku f attrs =
     [''SKU: '' @ sku, ''Title: '' @ title f, ''Price: '' @ price f,
      ''In stock: '' @ in_stock f, [], description f] @
     map (\<lambda>(label, val). label @ '': '' @ val) attrs"
proof -
  have "\<And>base. foldl (\<lambda>lines (label, val). lines @ [label @ '': '' @ val]) base attrs =
          base @ map (\<lambda>(label, val). label @ '': '' @ val) attrs"
    by (induction attrs) (simp_all add: split_beta)
  then show ?thesis
    unfolding metadata_lines_def by blast
qed

lemma extract_fields_Inr:
  assumes "extract_fields sku pg s = (Inr f, s')"
  shows "\<exists>h1 p pr a. h1_product_name pg = Some h1 \<and> price_span pg = Some p \<and>
           price_of p = Inr pr \<and> availability_a pg = Some a \<and>
           f = \<lparr>title = strip h1,
                description = (case product_description pg of [] \<Rightarrow> [] | d # ds \<Rightarrow> strip d),
                price = pr, in_stock = in_stock_of a\<rparr>"
  using assms
  by (cases "h1_product_name pg"; cases "price_span pg"; cases "availability_a pg";
      cases "product_description pg")
     (auto simp: extract_fields_def Let_def split: sum.splits if_splits)

lemma extract_fields_keeps:
  assumes "extract_fields sku pg s = (r, s')"
  shows "files s' = files s \<and> dirs s' = dirs s \<and> browser s' = browser s \<and> visited s' = visited s"
  using assms
  by (cases "h1_product_name pg"; cases "price_span pg"; cases "availability_a pg")
     (auto simp: extract_fields_def Let_def split: sum.splits if_splits)

lemma extract_fields_fst:
  "fst (extract_fields sku pg s) = fst (extract_fields sku' pg s')"
  by (cases "h1_product_name pg"; cases "price_span pg"; cases "availability_a pg")
     (auto simp: extract_fields_def Let_def split: sum.splits if_splits)

lemma thumbnail_loop_keeps:
  "files (snd (thumbnail_loop sku thumbs urls s)) = files s \<and>
   dirs (snd (thumbnail_loop sku thumbs urls s)) = dirs s \<and>
   browser (snd (thumbnail_loop sku thumbs urls s)) = browser s \<and>
   visited (snd (thumbnail_loop sku thumbs urls s)) = visited s"
  by (induction thumbs arbitrary: urls s) (auto split: sum.splits)

lemma gather_image_urls_keeps:
  "files (snd (gather_image_urls sku pg s)) = files s \<and>
   dirs (snd (gather_image_urls sku pg s)) = dirs s \<and>
   browser (snd (gather_image_urls sku pg s)) = browser s \<and>
   visited (snd (gather_image_urls sku pg s)) = visited s"
  unfolding gather_image_urls_def
  by (cases "image_container_img pg")
     (simp_all add: Let_def split_beta thumbnail_loop_keeps)


lemma metadata_lines_entries:
  "metadata_lines sku f attrs =
     metadata_entries sku (title f) (price f) (in_stock f) (description f) attrs"
  by (simp add: metadata_lines_eq metadata_entries_def)

text \<open>What a product that is processed to the end leaves behind.\<close>

lemma scrape_product_Inr:
  assumes "scrape_product env tot index sku s = (Inr (), s')"
  shows "\<exists>f. navigate env (PRODUCT_URL sku) = None \<and>
           fst (extract_fields sku (site env (PRODUCT_URL sku)) (s\<lparr>visited := visited s @ [PRODUCT_URL sku]\<rparr>)) = Inr f \<and>
           files s' (path_join (path_join OUTPUT_DIR sku) ''data.txt'') =
             Some (Text (join [CHR 0x0A]
               (metadata_lines sku f (extract_attributes (site env (PRODUCT_URL sku))))))"
  using assms
  unfolding scrape_product_def driver_get_cases wait_product_name_def save_metadata_def makedirs_cases
  by (auto simp: Let_def split_beta write_file_fst_Inr split: option.splits sum.splits prod.splits)

text \<open>A product whose steps all succeed.\<close>

lemma scrape_product_ok:
  assumes nav: "navigate env (PRODUCT_URL sku) = None"
    and h1: "h1_product_name (site env (PRODUCT_URL sku)) = Some h1"
    and fields: "extract_fields sku (site env (PRODUCT_URL sku)) (s\<lparr>visited := visited s @ [PRODUCT_URL sku]\<rparr>) = (Inr f, s2)"
    and urls: "gather_image_urls sku (site env (PRODUCT_URL sku)) s2 = (image_urls, s3)"
    and dir: "mkdir env (path_join OUTPUT_DIR sku) = None"
    and wr: "\<And>old. write_outcome env (path_join (path_join OUTPUT_DIR sku) ''data.txt'')
               (Text (join [CHR 0x0A] (metadata_lines sku f (extract_attributes (site env (PRODUCT_URL sku)))))) old = None"
  shows "scrape_product env tot index sku s =
     (Inr (), print (Saved index tot sku (length image_urls))
        (put_file (path_join (path_join OUTPUT_DIR sku) ''data.txt'')
           (Text (join [CHR 0x0A] (metadata_lines sku f (extract_attributes (site env (PRODUCT_URL sku))))))
           (download_images env sku (path_join OUTPUT_DIR sku) 1 image_urls
              (add_dir (path_join OUTPUT_DIR sku) s3))))"
  using nav h1 fields urls dir
  by (simp add: scrape_product_def driver_get_cases wait_product_name_def makedirs_cases
        save_metadata_def write_file_ok [OF wr] Let_def)

lemma split_scan_blank: "\<forall>c \<in> set s. isspace c \<Longrightarrow> split_scan [] s = []"
  by (induction s) auto

lemma set_strip: "set (strip s) \<subseteq> set s"
proof -
  have "set (rstrip (lstrip s)) \<subseteq> set (lstrip s)"
    unfolding rstrip_def using set_dropWhileD [of _ isspace "rev (lstrip s)"] by auto
  moreover have "set (lstrip s) \<subseteq> set s"
    unfolding lstrip_def using set_dropWhileD [of _ isspace s] by auto
  ultimately show ?thesis
    unfolding strip_def by blast
qed

lemma price_of_blank: "\<forall>c \<in> set p. isspace c \<Longrightarrow> price_of p = Inl IndexError"
proof -
  assume "\<forall>c \<in> set p. isspace c"
  with set_strip [of p] have "\<forall>c \<in> set (strip p). isspace c" by blast
  then have "split (strip p) = []"
    unfolding split_def by (rule split_scan_blank)
  then show ?thesis by (simp add: price_of_def)
qed


text \<open>
  The fields are read without an exception exactly when \<open>required_field_failure\<close> finds
  none.
\<close>

lemma required_fields_read:
  "required_field_failure pg = None \<longleftrightarrow>
     wait_product_name pg = Inr () \<and> (\<exists>f. fst (extract_fields sku pg s) = Inr f)"
  by (cases "h1_product_name pg"; cases "price_span pg"; cases "availability_a pg")
     (auto simp: required_field_failure_def wait_product_name_def extract_fields_def Let_def
           split: sum.splits)

lemma required_field_failure_cases:
  assumes "required_field_failure pg = Some e"
  shows "wait_product_name pg = Inl e \<or>
         (wait_product_name pg = Inr () \<and> fst (extract_fields sku pg s) = Inl e)"
  using assms
  by (cases "h1_product_name pg"; cases "price_span pg"; cases "availability_a pg")
     (auto simp: required_field_failure_def wait_product_name_def extract_fields_def Let_def
           split: sum.splits)

lemma scrape_product_field_failure:
  assumes nav: "navigate env (PRODUCT_URL sku) = None"
    and fail: "required_field_failure (site env (PRODUCT_URL sku)) = Some e"
  shows "\<exists>s'. scrape_product env tot index sku s = (Inl e, s') \<and> files s' = files s \<and>
           dirs s' = dirs s \<and> browser s' = browser s \<and>
           visited s' = visited s @ [PRODUCT_URL sku]"
proof -
  let ?pg = "site env (PRODUCT_URL sku)"
  let ?s1 = "s\<lparr>visited := visited s @ [PRODUCT_URL sku]\<rparr>"
  obtain r s2 where ef: "extract_fields sku ?pg ?s1 = (r, s2)"
    by (cases "extract_fields sku ?pg ?s1")
  from extract_fields_keeps [OF ef]
  have keep: "files s2 = files s \<and> dirs s2 = dirs s \<and> browser s2 = browser s \<and>
        visited s2 = visited s @ [PRODUCT_URL sku]"
    by simp
  from required_field_failure_cases [OF fail, of sku ?s1]
  show ?thesis
  proof
    assume "wait_product_name ?pg = Inl e"
    then show ?thesis
      using nav by (simp add: scrape_product_def driver_get_cases)
  next
    assume "wait_product_name ?pg = Inr () \<and> fst (extract_fields sku ?pg ?s1) = Inl e"
    then show ?thesis
      using nav ef keep by (simp add: scrape_product_def driver_get_cases)
  qed
qed

section \<open>The loop over the products and the run\<close>

lemma products_loop_Inl:
  "scrape_product env tot index sku s = (Inl e, s') \<Longrightarrow>
   products_loop env tot index (sku # skus) s = (Inl e, s')"
  by simp

lemma products_loop_append:
  "products_loop env tot index pre s = (Inr (), s1) \<Longrightarrow>
   products_loop env tot index (pre @ rest) s = products_loop env tot (index + length pre) rest s1"
proof (induction pre arbitrary: index s)
  case Nil
  then show ?case by simp
next
  case (Cons x pre)
  obtain r s' where step: "scrape_product env tot index x s = (r, s')"
    by (cases "scrape_product env tot index x s")
  show ?case
  proof (cases r)
    case (Inl e)
    with step Cons.prems show ?thesis by simp
  next
    case (Inr u)
    with step Cons.prems have "products_loop env tot (Suc index) pre s' = (Inr (), s1)" by simp
    from Cons.IH [OF this] step Inr show ?thesis by simp
  qed
qed

lemma run_body_total:
  "scroll_to_load_all (scroll_heights env) \<noteq> None \<Longrightarrow> run_body env s \<noteq> None"
  by (auto simp: run_body_def driver_get_cases Let_def split: option.splits sum.splits)


section \<open>The lines of a file\<close>

lemma lines_scan_plain: "CHR 0x0A \<notin> set x \<Longrightarrow> lines_scan cur x = [cur @ x]"
  by (induction x arbitrary: cur) auto

lemma lines_scan_append:
  "CHR 0x0A \<notin> set x \<Longrightarrow> lines_scan cur (x @ CHR 0x0A # rest) = (cur @ x) # lines_scan [] rest"
  by (induction x arbitrary: cur) auto

lemma file_lines_join:
  "xs \<noteq> [] \<Longrightarrow> \<forall>x \<in> set xs. CHR 0x0A \<notin> set x \<Longrightarrow> file_lines (join [CHR 0x0A] xs) = xs"
proof (induction xs)
  case Nil
  then show ?case by simp
next
  case (Cons x xs)
  then have x: "CHR 0x0A \<notin> set x" by simp
  show ?case
  proof (cases xs)
    case Nil
    with x show ?thesis by (simp add: file_lines_def lines_scan_plain)
  next
    case (Cons y ys)
    with Cons.IH Cons.prems have "lines_scan [] (join [CHR 0x0A] (y # ys)) = y # ys"
      by (simp add: file_lines_def)
    with x Cons show ?thesis
      by (simp add: file_lines_def lines_scan_append)
  qed
qed

section \<open>The examples, evaluated\<close>

lemma scroll_example: "scroll_to_load_all (\<lambda>k. min k 2) = Some 4"
  by (simp add: scroll_to_load_all_def)
     (subst scroll_loop.simps, simp, subst scroll_loop.simps, simp, subst scroll_loop.simps, simp)

lemma str_nat_small: "str_nat (Suc 0) = ''1''" "str_nat 2 = ''2''"
  by (simp_all add: str_nat.simps digit_char_def)

lemma example_fetched:
  "fetched example_env (Some ''a.png'') = Inl HTTPError"
  "fetched example_env (Some ''b.png'') = Inr (Converted ''RGB'' (Decoded ''PA'' [7]))"
  by (simp_all add: fetched_def requests_get_def raise_for_status_def example_env_def normalized_def)

lemma example_texts:
  "strip ''Lamp'' = ''Lamp''" "price_of ''199 kr'' = Inr ''199''" "in_stock_of ''I lager'' = ''YES''"
  by (simp_all add: price_of_def split_def strip_def lstrip_def rstrip_def isspace_def
        in_stock_of_def lower_def lower_char_def upper_letters_def lower_letters_def)

lemma example_fields:
  "extract_fields sku example_page s =
     (Inr \<lparr>title = ''Lamp'', description = [], price = ''199'', in_stock = ''YES''\<rparr>,
      print (No_description sku) s)"
  by (simp add: extract_fields_def example_page_def Let_def example_texts)

lemma example_gather:
  "gather_image_urls sku example_page s =
     ([Some ''a.png'', Some ''b.png''], print (Thumbnail_failed sku WebDriverException) s)"
  by (simp add: gather_image_urls_def example_page_def Let_def)

lemma example_downloads_on:
  assumes f: "fetched env = fetched example_env"
    and wr: "\<And>p c old. write_outcome env p c old = None"
  shows "download_images env sku d (Suc 0) [Some ''a.png'', Some ''b.png''] s =
     put_file (webp_path d 2) (Encoded ''WEBP'' True (Converted ''RGB'' (Decoded ''PA'' [7])))
       (print (Image_failed (Some ''a.png'') sku HTTPError) s)"
  by (simp add: download_image_eq f example_fetched write_file_ok [OF wr] numeral_2_eq_2)

lemma example_metadata_text:
  "join [CHR 0x0A] (metadata_lines sku
      \<lparr>title = ''Lamp'', description = [], price = ''199'', in_stock = ''YES''\<rparr>
      (extract_attributes example_page)) = example_metadata sku"
  by (simp add: metadata_lines_eq example_attributes example_metadata_def)

lemma example_product_on:
  assumes nav: "navigate env (PRODUCT_URL sku) = None"
    and pg: "site env (PRODUCT_URL sku) = example_page"
    and net: "http_get env = http_get example_env" "image_open env = image_open example_env"
      "image_load env = image_load example_env"
    and dir: "\<And>p. mkdir env p = None"
    and wr: "\<And>p c old. write_outcome env p c old = None"
  shows "scrape_product env tot index sku s = (Inr (), example_result tot index sku s)"
proof -
  have f: "fetched env = fetched example_env"
    by (rule ext) (simp add: fetched_def requests_get_def net split: option.splits sum.splits)
  have h1: "h1_product_name (site env (PRODUCT_URL sku)) = Some ''Lamp''"
    by (simp add: pg example_page_def)
  have "scrape_product env tot index sku s =
     (Inr (), print (Saved index tot sku (length [Some ''a.png'', Some ''b.png'']))
        (put_file (path_join (path_join OUTPUT_DIR sku) ''data.txt'')
           (Text (join [CHR 0x0A] (metadata_lines sku
              \<lparr>title = ''Lamp'', description = [], price = ''199'', in_stock = ''YES''\<rparr>
              (extract_attributes (site env (PRODUCT_URL sku))))))
           (download_images env sku (path_join OUTPUT_DIR sku) 1 [Some ''a.png'', Some ''b.png'']
              (add_dir (path_join OUTPUT_DIR sku)
                 (print (Thumbnail_failed sku WebDriverException)
                    (print (No_description sku) (s\<lparr>visited := visited s @ [PRODUCT_URL sku]\<rparr>)))))))"
    by (rule scrape_product_ok [OF nav h1 _ _ dir wr]) (simp_all add: pg example_fields example_gather)
  then show ?thesis
    by (simp add: pg example_metadata_text example_downloads_on [OF f wr] example_result_def
          numeral_2_eq_2 del: download_images.simps)
qed

lemma example_product:
  "scrape_product example_env tot index sku s = (Inr (), example_result tot index sku s)"
  by (rule example_product_on) (simp_all add: example_env_def)

lemma example_paths:
  "path_join OUTPUT_DIR ''S1'' = ''output/S1''"
  "path_join OUTPUT_DIR ''S2'' = ''output/S2''"
  "path_join OUTPUT_DIR ''S3'' = ''output/S3''"
  "path_join ''output/S1'' ''data.txt'' = ''output/S1/data.txt''"
  "path_join ''output/S2'' ''data.txt'' = ''output/S2/data.txt''"
  "path_join ''output/S3'' ''data.txt'' = ''output/S3/data.txt''"
  "webp_path ''output/S1'' (Suc 0) = ''output/S1/1.webp''"
  "webp_path ''output/S1'' 2 = ''output/S1/2.webp''"
  "webp_path ''output/S2'' 2 = ''output/S2/2.webp''"
  by (simp_all add: path_join_def OUTPUT_DIR_def webp_path_def str_nat_small)

lemma example_skus: "collect_skus (product_cards example_env) = Inr [''S1'', ''S2'']"
  by (simp add: example_env_def strip_def lstrip_def rstrip_def isspace_def)

lemma example_run:
  "scrape_products example_env empty_state =
     Some (Inr (), driver_quit (example_result 2 2 ''S2'' (example_result 2 1 ''S1''
       (print (Found_products 2) (print (Opened_listing MANUAL_LOGIN_WAIT)
          ((add_dir OUTPUT_DIR empty_state)\<lparr>browser := Active,
              visited := visited (add_dir OUTPUT_DIR empty_state) @ [LISTING_URL]\<rparr>))))))"
proof -
  have "scroll_to_load_all (scroll_heights example_env) = Some 4"
    using scroll_example by (simp add: example_env_def)
  moreover have "launch example_env = None" "navigate example_env LISTING_URL = None"
    "mkdir example_env OUTPUT_DIR = None"
    by (simp_all add: example_env_def)
  ultimately show ?thesis
    by (simp add: scrape_products_def makedirs_cases create_webdriver_def run_body_def
          driver_get_cases example_skus example_product Let_def numeral_2_eq_2)
qed

lemma example_result_files:
  "files (example_result tot index ''S1'' s) =
     (files s)(''output/S1/2.webp'' \<mapsto> Encoded ''WEBP'' True (Converted ''RGB'' (Decoded ''PA'' [7])),
               ''output/S1/data.txt'' \<mapsto> Text (example_metadata ''S1''))"
  by (simp add: example_result_def example_paths)

lemma broken_failure:
  "required_field_failure (example_page\<lparr>price_span := None\<rparr>) = Some NoSuchElementException"
  "required_field_failure (example_page\<lparr>h1_product_name := None\<rparr>) = Some TimeoutException"
  by (simp_all add: required_field_failure_def example_page_def)

lemma broken_fields:
  "extract_fields sku (example_page\<lparr>price_span := None\<rparr>) s =
     (Inl NoSuchElementException, print (No_description sku) s)"
  by (simp add: extract_fields_def example_page_def Let_def)

lemma broken_ready: "wait_product_name (example_page\<lparr>price_span := None\<rparr>) = Inr ()"
  by (simp add: wait_product_name_def example_page_def)

lemma broken_product:
  assumes "navigate env (PRODUCT_URL sku) = None"
    and "site env (PRODUCT_URL sku) = example_page\<lparr>price_span := None\<rparr>"
  shows "scrape_product env tot index sku s =
     (Inl NoSuchElementException,
      print (No_description sku) (s\<lparr>visited := visited s @ [PRODUCT_URL sku]\<rparr>))"
  using assms by (simp add: scrape_product_def driver_get_cases broken_ready broken_fields)

lemma failing_skus: "collect_skus (product_cards failing_env) = Inr [''S1'', ''S2'']"
  using example_skus by (simp add: failing_env_def)

lemma failing_run:
  "scrape_products failing_env empty_state = Some (Inl NoSuchElementException, failing_run_state)"
proof -
  have "scroll_to_load_all (scroll_heights failing_env) = Some 4"
    using scroll_example by (simp add: failing_env_def example_env_def)
  moreover have "launch failing_env = None" "navigate failing_env LISTING_URL = None"
    "mkdir failing_env OUTPUT_DIR = None"
    by (simp_all add: failing_env_def example_env_def)
  moreover have "scrape_product failing_env 2 1 ''S1'' s =
     (Inl NoSuchElementException,
      print (No_description ''S1'') (s\<lparr>visited := visited s @ [PRODUCT_URL ''S1'']\<rparr>))" for s
    by (rule broken_product) (simp_all add: failing_env_def example_env_def)
  ultimately show ?thesis
    by (simp add: scrape_products_def makedirs_cases create_webdriver_def run_body_def
          driver_get_cases failing_skus Let_def numeral_2_eq_2)
       (simp add: failing_run_state_def empty_state_def print_def add_dir_def driver_quit_def
          OUTPUT_DIR_def MANUAL_LOGIN_WAIT_def)
qed

lemma failing_second_alone:
  "scrape_product failing_env 2 2 ''S2'' empty_state = (Inr (), example_result 2 2 ''S2'' empty_state)"
  by (rule example_product_on) (simp_all add: failing_env_def example_env_def PRODUCT_URL_def)

section \<open>Claims about the images\<close>

text \<open>
  C8. \<open>convert_to_webp\<close> keeps the alpha channel of an image decoded in mode \<open>LA\<close> (it
  is converted to \<open>RGBA\<close>) and drops that of an image decoded in mode \<open>PA\<close>, palette
  with alpha (it is converted to \<open>RGB\<close>): the guard names \<open>RGBA\<close> and \<open>LA\<close> only.
\<close>

theorem pa_image_converted_to_rgb:
  "image_open example_env [7] = Inr (Decoded ''PA'' [7]) \<and>
   has_alpha_channel (Decoded ''PA'' [7]) \<and>
   convert_to_webp example_env [7] ''x.webp'' empty_state =
     (Inr (), put_file ''x.webp'' (Encoded ''WEBP'' True (Converted ''RGB'' (Decoded ''PA'' [7]))) empty_state) \<and>
   image_open la_env [7] = Inr (Decoded ''LA'' [7]) \<and>
   has_alpha_channel (Decoded ''LA'' [7]) \<and>
   convert_to_webp la_env [7] ''x.webp'' empty_state =
     (Inr (), put_file ''x.webp'' (Encoded ''WEBP'' True (Converted ''RGBA'' (Decoded ''LA'' [7]))) empty_state)"
  by (simp add: example_env_def la_env_def has_alpha_channel_def convert_to_webp_def convert_def
        save_def write_file_def put_file_def)

text \<open>
  C2, as the code has it. The number in an image file's name is the 1-based position of
  its URL in the list of discovered URLs. For every position \<open>k\<close>: when the download and
  the decoding of the \<open>k\<close>-th URL succeed, \<open>k.webp\<close> of the product directory holds its
  image if the save succeeds and what the failed save left there if the save raises;
  when the download or the decoding fails, \<open>k.webp\<close> is as it was. No other file is
  touched. So the files are numbered in discovery order, \<open>1.webp\<close> to \<open>N.webp\<close> without
  gaps when every one of the \<open>N\<close> URLs succeeds, and a failure leaves its number unused.
\<close>

theorem image_numbering_by_position:
  "(\<forall>k < length image_urls.
      files (download_images env sku product_dir 1 image_urls s) (webp_path product_dir (Suc k)) =
        (case fetched env (image_urls ! k) of
           Inl e \<Rightarrow> files s (webp_path product_dir (Suc k))
         | Inr img \<Rightarrow>
             (case write_outcome env (webp_path product_dir (Suc k)) (Encoded ''WEBP'' True img)
                     (files s (webp_path product_dir (Suc k))) of
                None \<Rightarrow> Some (Encoded ''WEBP'' True img)
              | Some (e, left) \<Rightarrow> left))) \<and>
   (\<forall>p. (\<forall>k < length image_urls. p \<noteq> webp_path product_dir (Suc k)) \<longrightarrow>
      files (download_images env sku product_dir 1 image_urls s) p = files s p)"
proof (intro conjI allI impI)
  fix k assume "k < length image_urls"
  then show "files (download_images env sku product_dir 1 image_urls s) (webp_path product_dir (Suc k)) =
        (case fetched env (image_urls ! k) of
           Inl e \<Rightarrow> files s (webp_path product_dir (Suc k))
         | Inr img \<Rightarrow>
             (case write_outcome env (webp_path product_dir (Suc k)) (Encoded ''WEBP'' True img)
                     (files s (webp_path product_dir (Suc k))) of
                None \<Rightarrow> Some (Encoded ''WEBP'' True img)
              | Some (e, left) \<Rightarrow> left))"
    using download_images_at [of k image_urls env sku product_dir 1 s]
    by (simp add: after_write_def split: sum.splits)
next
  fix p assume "\<forall>k < length image_urls. p \<noteq> webp_path product_dir (Suc k)"
  then show "files (download_images env sku product_dir 1 image_urls s) p = files s p"
    using download_images_other [of image_urls p product_dir 1 env sku s] by simp
qed

theorem image_numbering_by_position_witness:
  "files (download_images example_env ''S1'' ''output/S1'' 1 [Some ''a.png'', Some ''b.png''] empty_state)
     ''output/S1/1.webp'' = None \<and>
   files (download_images example_env ''S1'' ''output/S1'' 1 [Some ''a.png'', Some ''b.png''] empty_state)
     ''output/S1/2.webp'' = Some (Encoded ''WEBP'' True (Converted ''RGB'' (Decoded ''PA'' [7]))) \<and>
   files (download_images failing_save_env ''S1'' ''output/S1'' 1 [Some ''a.png'', Some ''b.png''] empty_state)
     ''output/S1/2.webp'' = None"
proof -
  note at = image_numbering_by_position
         [of "[Some ''a.png'', Some ''b.png'']" example_env "''S1''" "''output/S1''" empty_state,
          THEN conjunct1, rule_format]
  note at' = image_numbering_by_position
         [of "[Some ''a.png'', Some ''b.png'']" failing_save_env "''S1''" "''output/S1''" empty_state,
          THEN conjunct1, rule_format]
  have e: "files empty_state = Map.empty"
    by (simp add: empty_state_def)
  have w: "\<And>p c old. write_outcome example_env p c old = None"
    by (simp add: example_env_def)
  have w': "\<And>p fmt opt img old.
      write_outcome failing_save_env p (Encoded fmt opt img) old = Some (OSError, None)"
    by (simp add: failing_save_env_def)
  have f': "fetched failing_save_env (Some ''b.png'') = Inr (Converted ''RGB'' (Decoded ''PA'' [7]))"
    by (simp add: fetched_def requests_get_def raise_for_status_def failing_save_env_def
          example_env_def normalized_def)
  have "files (download_images example_env ''S1'' ''output/S1'' 1 [Some ''a.png'', Some ''b.png''] empty_state)
          (webp_path ''output/S1'' (Suc 0)) = None"
    using at [of 0] by (simp add: e example_fetched del: download_images.simps)
  moreover
  have "files (download_images example_env ''S1'' ''output/S1'' 1 [Some ''a.png'', Some ''b.png''] empty_state)
          (webp_path ''output/S1'' (Suc (Suc 0))) =
        Some (Encoded ''WEBP'' True (Converted ''RGB'' (Decoded ''PA'' [7])))"
    using at [of "Suc 0"] by (simp add: example_fetched w del: download_images.simps)
  moreover
  have "files (download_images failing_save_env ''S1'' ''output/S1'' 1 [Some ''a.png'', Some ''b.png''] empty_state)
          (webp_path ''output/S1'' (Suc (Suc 0))) = None"
    using at' [of "Suc 0"] by (simp add: f' w' del: download_images.simps)
  ultimately show ?thesis
    using example_paths(7,8) by (simp add: numeral_2_eq_2 del: download_images.simps)
qed

text \<open>
  Contiguous numbering of the saved images fails: of two discovered URLs the first fails
  and the second succeeds, so one image is saved, and it is \<open>2.webp\<close>; there is no
  \<open>1.webp\<close>.
\<close>

theorem image_numbering_counterexample:
  "fst (gather_image_urls ''S1'' example_page empty_state) = [Some ''a.png'', Some ''b.png''] \<and>
   fetched example_env (Some ''a.png'') = Inl HTTPError \<and>
   fetched example_env (Some ''b.png'') = Inr (Converted ''RGB'' (Decoded ''PA'' [7])) \<and>
   fst (scrape_product example_env 2 1 ''S1'' empty_state) = Inr () \<and>
   files (snd (scrape_product example_env 2 1 ''S1'' empty_state)) ''output/S1/1.webp'' = None \<and>
   files (snd (scrape_product example_env 2 1 ''S1'' empty_state)) ''output/S1/2.webp'' =
     Some (Encoded ''WEBP'' True (Converted ''RGB'' (Decoded ''PA'' [7])))"
  by (simp add: example_gather example_fetched example_product example_result_files empty_state_def)

section \<open>Claims about the metadata file and the price\<close>

text \<open>
  C4, as the code has it. For every product processed to the end, \<open>data.txt\<close> in the
  product directory holds these entries joined by line feeds, in this order:
  \<open>SKU: <id>\<close>, \<open>Title: <title>\<close>, \<open>Price: <price>\<close>, \<open>In stock: YES\<close> or
  \<open>In stock: NO\<close>, an empty entry, the description, then one \<open><label>: <value>\<close> entry
  per attribute in insertion order; the title, price and stock flag are those read from
  the page. The entries are the lines of the file, one for one, whenever none of them
  contains a line feed.
\<close>

theorem metadata_file_layout:
  assumes "scrape_product env tot index sku s = (Inr (), s')"
  shows "\<exists>h1 p pr a.
           h1_product_name (site env (PRODUCT_URL sku)) = Some h1 \<and>
           price_span (site env (PRODUCT_URL sku)) = Some p \<and> price_of p = Inr pr \<and>
           availability_a (site env (PRODUCT_URL sku)) = Some a \<and>
           (in_stock_of a = ''YES'' \<or> in_stock_of a = ''NO'') \<and>
           files s' (path_join (path_join OUTPUT_DIR sku) ''data.txt'') =
             Some (Text (join [CHR 0x0A]
               (metadata_entries sku (strip h1) pr (in_stock_of a)
                  (case product_description (site env (PRODUCT_URL sku)) of
                     [] \<Rightarrow> [] | d # ds \<Rightarrow> strip d)
                  (extract_attributes (site env (PRODUCT_URL sku)))))) \<and>
           ((\<forall>x \<in> set (metadata_entries sku (strip h1) pr (in_stock_of a)
                  (case product_description (site env (PRODUCT_URL sku)) of
                     [] \<Rightarrow> [] | d # ds \<Rightarrow> strip d)
                  (extract_attributes (site env (PRODUCT_URL sku)))). CHR 0x0A \<notin> set x) \<longrightarrow>
            file_lines (join [CHR 0x0A]
               (metadata_entries sku (strip h1) pr (in_stock_of a)
                  (case product_description (site env (PRODUCT_URL sku)) of
                     [] \<Rightarrow> [] | d # ds \<Rightarrow> strip d)
                  (extract_attributes (site env (PRODUCT_URL sku))))) =
            metadata_entries sku (strip h1) pr (in_stock_of a)
                  (case product_description (site env (PRODUCT_URL sku)) of
                     [] \<Rightarrow> [] | d # ds \<Rightarrow> strip d)
                  (extract_attributes (site env (PRODUCT_URL sku))))"
proof -
  let ?pg = "site env (PRODUCT_URL sku)"
  let ?s1 = "s\<lparr>visited := visited s @ [PRODUCT_URL sku]\<rparr>"
  from scrape_product_Inr [OF assms] obtain f where
    f: "fst (extract_fields sku ?pg ?s1) = Inr f" and
    meta: "files s' (path_join (path_join OUTPUT_DIR sku) ''data.txt'') =
             Some (Text (join [CHR 0x0A] (metadata_lines sku f (extract_attributes ?pg))))"
    by blast
  from f have "extract_fields sku ?pg ?s1 = (Inr f, snd (extract_fields sku ?pg ?s1))"
    by (metis prod.collapse)
  from extract_fields_Inr [OF this] obtain h1 p pr a where
    pg: "h1_product_name ?pg = Some h1" "price_span ?pg = Some p" "price_of p = Inr pr"
        "availability_a ?pg = Some a" and
    fdef: "f = \<lparr>title = strip h1,
                description = (case product_description ?pg of [] \<Rightarrow> [] | d # ds \<Rightarrow> strip d),
                price = pr, in_stock = in_stock_of a\<rparr>"
    by blast
  let ?entries = "metadata_entries sku (strip h1) pr (in_stock_of a)
                  (case product_description ?pg of [] \<Rightarrow> [] | d # ds \<Rightarrow> strip d)
                  (extract_attributes ?pg)"
  have yn: "in_stock_of a = ''YES'' \<or> in_stock_of a = ''NO''"
    by (simp add: in_stock_of_def)
  have content: "files s' (path_join (path_join OUTPUT_DIR sku) ''data.txt'') =
             Some (Text (join [CHR 0x0A] ?entries))"
    using meta unfolding metadata_lines_entries fdef by simp
  have "?entries \<noteq> []"
    by (simp add: metadata_entries_def)
  then have lns: "(\<forall>x \<in> set ?entries. CHR 0x0A \<notin> set x) \<longrightarrow>
             file_lines (join [CHR 0x0A] ?entries) = ?entries"
    using file_lines_join [of ?entries] by blast
  from pg yn content lns show ?thesis by blast
qed

theorem metadata_file_layout_witness:
  "scrape_product example_env 2 1 ''S1'' empty_state = (Inr (), example_result 2 1 ''S1'' empty_state) \<and>
   files (example_result 2 1 ''S1'' empty_state) ''output/S1/data.txt'' =
     Some (Text (example_metadata ''S1'')) \<and>
   file_lines (example_metadata ''S1'') =
     [''SKU: S1'', ''Title: Lamp'', ''Price: 199'', ''In stock: YES'', [], [],
      ''Color: blue'', ''Size: L'']"
proof -
  have pg: "site example_env (PRODUCT_URL ''S1'') = example_page"
    by (simp add: example_env_def)
  note run = example_product [of 2 1 "''S1''" empty_state]
  let ?entries = "\<lambda>h1 pr a. metadata_entries ''S1'' (strip h1) pr (in_stock_of a)
        (case product_description example_page of [] \<Rightarrow> [] | d # ds \<Rightarrow> strip d)
        (extract_attributes example_page)"
  from metadata_file_layout [OF run]
  obtain h1 p pr a where
    A: "h1_product_name example_page = Some h1" and B: "price_span example_page = Some p" and
    C: "price_of p = Inr pr" and D: "availability_a example_page = Some a" and
    E: "files (example_result 2 1 ''S1'' empty_state) (path_join (path_join OUTPUT_DIR ''S1'') ''data.txt'') =
       Some (Text (join [CHR 0x0A] (?entries h1 pr a)))" and
    F: "(\<forall>x \<in> set (?entries h1 pr a). CHR 0x0A \<notin> set x) \<longrightarrow>
        file_lines (join [CHR 0x0A] (?entries h1 pr a)) = ?entries h1 pr a"
    unfolding pg by blast
  have h1: "h1 = ''Lamp''" using A by (simp add: example_page_def)
  have p: "p = ''199 kr''" using B by (simp add: example_page_def)
  have a: "a = ''I lager''" using D by (simp add: example_page_def)
  have pr: "pr = ''199''" using C unfolding p by (simp add: example_texts)
  have d: "product_description example_page = []" by (simp add: example_page_def)
  have entries: "?entries h1 pr a =
      [''SKU: S1'', ''Title: Lamp'', ''Price: 199'', ''In stock: YES'', [], [],
       ''Color: blue'', ''Size: L'']"
    unfolding h1 a pr d example_attributes example_texts by (simp add: metadata_entries_def)
  have joined: "join [CHR 0x0A] (?entries h1 pr a) = example_metadata ''S1''"
    unfolding entries by (simp add: example_metadata_def)
  have "files (example_result 2 1 ''S1'' empty_state) ''output/S1/data.txt'' =
          Some (Text (example_metadata ''S1''))"
    using E unfolding joined by (simp add: example_paths)
  moreover have "file_lines (example_metadata ''S1'') =
      [''SKU: S1'', ''Title: Lamp'', ''Price: 199'', ''In stock: YES'', [], [],
       ''Color: blue'', ''Size: L'']"
    using F unfolding joined unfolding entries by simp
  ultimately show ?thesis
    using run by simp
qed

text \<open>
  The entries are not always the lines of the file: a title that holds a line feed is
  written over two lines, and the third line of the file is the rest of the title, not
  the price.
\<close>

lemma two_line_product:
  "scrape_product two_line_title_env 2 1 ''S1'' empty_state =
     (Inr (), print (Saved 1 2 ''S1'' 2)
        (put_file ''output/S1/data.txt'' (Text two_line_metadata)
           (download_images two_line_title_env ''S1'' ''output/S1'' 1 [Some ''a.png'', Some ''b.png'']
              (add_dir ''output/S1''
                 (print (Thumbnail_failed ''S1'' WebDriverException)
                    (print (No_description ''S1'')
                       (empty_state\<lparr>visited := visited empty_state @ [PRODUCT_URL ''S1'']\<rparr>)))))))"
proof -
  let ?t = "''Big'' @ [CHR 0x0A] @ ''Lamp''"
  let ?pg = "example_page\<lparr>h1_product_name := Some ?t\<rparr>"
  let ?f = "\<lparr>title = ?t, description = [], price = ''199'', in_stock = ''YES''\<rparr>"
  have pg: "site two_line_title_env (PRODUCT_URL ''S1'') = ?pg"
    by (simp add: two_line_title_env_def)
  have st: "strip ?t = ?t"
    by (simp add: strip_def lstrip_def rstrip_def isspace_def)
  have fields: "extract_fields ''S1'' ?pg s = (Inr ?f, print (No_description ''S1'') s)" for s
    using st by (simp add: extract_fields_def example_page_def Let_def example_texts)
  have urls: "gather_image_urls ''S1'' ?pg s =
      ([Some ''a.png'', Some ''b.png''], print (Thumbnail_failed ''S1'' WebDriverException) s)" for s
    using example_gather [of "''S1''" s] by (simp add: gather_image_urls_def)
  have attrs: "extract_attributes ?pg = [(''Color'', ''blue''), (''Size'', ''L'')]"
    using example_attributes by (simp add: extract_attributes_def)
  have nav: "navigate two_line_title_env (PRODUCT_URL ''S1'') = None"
    and dir: "mkdir two_line_title_env (path_join OUTPUT_DIR ''S1'') = None"
    and wr: "\<And>p c old. write_outcome two_line_title_env p c old = None"
    by (simp_all add: two_line_title_env_def example_env_def)
  have h1: "h1_product_name (site two_line_title_env (PRODUCT_URL ''S1'')) = Some ?t"
    by (simp add: pg)
  have joined: "join [CHR 0x0A] (metadata_lines ''S1'' ?f (extract_attributes ?pg)) = two_line_metadata"
    unfolding attrs by (simp add: metadata_lines_eq two_line_metadata_def)
  let ?s1 = "empty_state\<lparr>visited := visited empty_state @ [PRODUCT_URL ''S1'']\<rparr>"
  have fields': "extract_fields ''S1'' (site two_line_title_env (PRODUCT_URL ''S1'')) ?s1 =
      (Inr ?f, print (No_description ''S1'') ?s1)"
    unfolding pg by (rule fields)
  have urls': "gather_image_urls ''S1'' (site two_line_title_env (PRODUCT_URL ''S1''))
      (print (No_description ''S1'') ?s1) =
      ([Some ''a.png'', Some ''b.png''],
       print (Thumbnail_failed ''S1'' WebDriverException) (print (No_description ''S1'') ?s1))"
    unfolding pg by (rule urls)
  have "scrape_product two_line_title_env 2 1 ''S1'' empty_state =
     (Inr (), print (Saved 1 2 ''S1'' (length [Some ''a.png'', Some ''b.png'']))
        (put_file (path_join (path_join OUTPUT_DIR ''S1'') ''data.txt'')
           (Text (join [CHR 0x0A] (metadata_lines ''S1'' ?f
              (extract_attributes (site two_line_title_env (PRODUCT_URL ''S1''))))))
           (download_images two_line_title_env ''S1'' (path_join OUTPUT_DIR ''S1'') 1
              [Some ''a.png'', Some ''b.png'']
              (add_dir (path_join OUTPUT_DIR ''S1'')
                 (print (Thumbnail_failed ''S1'' WebDriverException)
                    (print (No_description ''S1'')
                       (empty_state\<lparr>visited := visited empty_state @ [PRODUCT_URL ''S1'']\<rparr>)))))))"
    by (rule scrape_product_ok [OF nav h1 fields' urls' dir wr])
  then show ?thesis
    unfolding pg joined example_paths by (simp add: numeral_2_eq_2 del: download_images.simps)
qed

theorem metadata_lines_counterexample:
  "h1_product_name (site two_line_title_env (PRODUCT_URL ''S1'')) =
     Some (''Big'' @ [CHR 0x0A] @ ''Lamp'') \<and>
   fst (scrape_product two_line_title_env 2 1 ''S1'' empty_state) = Inr () \<and>
   files (snd (scrape_product two_line_title_env 2 1 ''S1'' empty_state)) ''output/S1/data.txt'' =
     Some (Text two_line_metadata) \<and>
   file_lines two_line_metadata =
     [''SKU: S1'', ''Title: Big'', ''Lamp'', ''Price: 199'', ''In stock: YES'', [], [],
      ''Color: blue'', ''Size: L'']"
proof -
  have "h1_product_name (site two_line_title_env (PRODUCT_URL ''S1'')) =
     Some (''Big'' @ [CHR 0x0A] @ ''Lamp'')"
    by (simp add: two_line_title_env_def)
  moreover have "file_lines two_line_metadata =
     [''SKU: S1'', ''Title: Big'', ''Lamp'', ''Price: 199'', ''In stock: YES'', [], [],
      ''Color: blue'', ''Size: L'']"
    by (simp add: file_lines_def two_line_metadata_def)
  ultimately show ?thesis
    using two_line_product by (simp del: download_images.simps)
qed

text \<open>
  C9. When the page can be reached, has its title, and the text of its price element is
  empty or all whitespace, taking the first token raises \<open>IndexError\<close>; nothing in the
  loop body catches it, so processing the product raises it and so does the loop over
  the SKUs.
\<close>

theorem blank_price_raises_index_error:
  assumes nav: "navigate env (PRODUCT_URL sku) = None"
    and h1: "h1_product_name (site env (PRODUCT_URL sku)) = Some h1"
    and p: "price_span (site env (PRODUCT_URL sku)) = Some p"
    and blank: "\<forall>c \<in> set p. isspace c"
  shows "price_of p = Inl IndexError \<and>
         fst (scrape_product env tot index sku s) = Inl IndexError \<and>
         fst (products_loop env tot index (sku # skus) s) = Inl IndexError"
proof -
  have pr: "price_of p = Inl IndexError"
    using blank by (rule price_of_blank)
  have "required_field_failure (site env (PRODUCT_URL sku)) = Some IndexError"
    using h1 p pr by (simp add: required_field_failure_def)
  from scrape_product_field_failure [OF nav this]
  obtain s' where sp: "scrape_product env tot index sku s = (Inl IndexError, s')"
    by blast
  then have "products_loop env tot index (sku # skus) s = (Inl IndexError, s')"
    by (rule products_loop_Inl)
  with pr sp show ?thesis by simp
qed

theorem blank_price_raises_index_error_witness:
  "price_of [CHR 0x20, CHR 0xA0] = Inl IndexError \<and>
   fst (scrape_product blank_price_env 2 1 ''S1'' empty_state) = Inl IndexError \<and>
   fst (products_loop blank_price_env 2 1 [''S1'', ''S2''] empty_state) = Inl IndexError"
proof -
  have nav: "navigate blank_price_env (PRODUCT_URL ''S1'') = None"
    by (simp add: blank_price_env_def example_env_def)
  have h1: "h1_product_name (site blank_price_env (PRODUCT_URL ''S1'')) = Some ''Lamp''"
    by (simp add: blank_price_env_def example_page_def)
  have p: "price_span (site blank_price_env (PRODUCT_URL ''S1'')) = Some [CHR 0x20, CHR 0xA0]"
    by (simp add: blank_price_env_def)
  have blank: "\<forall>c \<in> set [CHR 0x20, CHR 0xA0]. isspace c"
    by (simp add: isspace_def)
  from blank_price_raises_index_error [OF nav h1 p blank, of 2 1 empty_state "[''S2'']"]
  show ?thesis .
qed

section \<open>Claims about failures and the browser session\<close>

text \<open>
  C1, as the code has it. When the products before an identifier have been processed,
  its page is reached, and reading a required field raises (no title element, so that
  the wait for it times out; no price element; no token in the price text; no
  availability element), the exception leaves the loop over the SKUs: the loop ends
  with it, nothing is written for that product, the files of the earlier products stay,
  and no later identifier is visited.
\<close>

theorem required_field_failure_ends_loop:
  assumes pre: "products_loop env tot index pre s = (Inr (), s1)"
    and nav: "navigate env (PRODUCT_URL sku) = None"
    and fail: "required_field_failure (site env (PRODUCT_URL sku)) = Some e"
  shows "\<exists>s2. products_loop env tot index (pre @ sku # post) s = (Inl e, s2) \<and>
           files s2 = files s1 \<and> dirs s2 = dirs s1 \<and>
           visited s2 = visited s1 @ [PRODUCT_URL sku]"
proof -
  from scrape_product_field_failure [OF nav fail]
  obtain s2 where sp: "scrape_product env tot (index + length pre) sku s1 = (Inl e, s2)"
    and keep: "files s2 = files s1" "dirs s2 = dirs s1" "visited s2 = visited s1 @ [PRODUCT_URL sku]"
    by blast
  have "products_loop env tot index (pre @ sku # post) s =
        products_loop env tot (index + length pre) (sku # post) s1"
    using pre by (rule products_loop_append)
  also have "\<dots> = (Inl e, s2)"
    using sp by (rule products_loop_Inl)
  finally show ?thesis using keep by blast
qed

theorem required_field_failure_ends_loop_witness:
  "(\<exists>s2. products_loop late_failing_env 3 1 [''S1'', ''S2'', ''S3''] empty_state =
          (Inl NoSuchElementException, s2) \<and>
        files s2 ''output/S1/data.txt'' = Some (Text (example_metadata ''S1'')) \<and>
        files s2 ''output/S3/data.txt'' = None \<and>
        visited s2 = [PRODUCT_URL ''S1'', PRODUCT_URL ''S2'']) \<and>
   (\<exists>s2. products_loop untitled_env 3 1 [''S1'', ''S2'', ''S3''] empty_state =
          (Inl TimeoutException, s2) \<and>
        files s2 ''output/S1/data.txt'' = Some (Text (example_metadata ''S1'')) \<and>
        files s2 ''output/S3/data.txt'' = None \<and>
        visited s2 = [PRODUCT_URL ''S1'', PRODUCT_URL ''S2''])"
proof -
  let ?s1 = "example_result 3 1 ''S1'' empty_state"
  have f1: "files ?s1 ''output/S1/data.txt'' = Some (Text (example_metadata ''S1''))"
    "files ?s1 ''output/S3/data.txt'' = None"
    by (simp_all add: example_result_files empty_state_def)
  have v1: "visited ?s1 = [PRODUCT_URL ''S1'']"
    by (simp add: example_result_def empty_state_def)
  have "scrape_product late_failing_env 3 1 ''S1'' empty_state = (Inr (), ?s1)"
    by (rule example_product_on) (simp_all add: late_failing_env_def example_env_def PRODUCT_URL_def)
  then have pre: "products_loop late_failing_env 3 1 [''S1''] empty_state = (Inr (), ?s1)"
    by simp
  have nav: "navigate late_failing_env (PRODUCT_URL ''S2'') = None"
    by (simp add: late_failing_env_def example_env_def)
  have fail: "required_field_failure (site late_failing_env (PRODUCT_URL ''S2'')) =
                Some NoSuchElementException"
    by (simp add: late_failing_env_def broken_failure)
  from required_field_failure_ends_loop [OF pre nav fail, of "[''S3'']"]
  obtain s2 where
    "products_loop late_failing_env 3 1 ([''S1''] @ ''S2'' # [''S3'']) empty_state =
       (Inl NoSuchElementException, s2)"
    "files s2 = files ?s1" "visited s2 = visited ?s1 @ [PRODUCT_URL ''S2'']"
    by blast
  with f1 v1 have a: "\<exists>s2. products_loop late_failing_env 3 1 [''S1'', ''S2'', ''S3''] empty_state =
          (Inl NoSuchElementException, s2) \<and>
        files s2 ''output/S1/data.txt'' = Some (Text (example_metadata ''S1'')) \<and>
        files s2 ''output/S3/data.txt'' = None \<and>
        visited s2 = [PRODUCT_URL ''S1'', PRODUCT_URL ''S2'']"
    by (intro exI [of _ s2]) simp
  have "scrape_product untitled_env 3 1 ''S1'' empty_state = (Inr (), ?s1)"
    by (rule example_product_on) (simp_all add: untitled_env_def example_env_def PRODUCT_URL_def)
  then have pre': "products_loop untitled_env 3 1 [''S1''] empty_state = (Inr (), ?s1)"
    by simp
  have nav': "navigate untitled_env (PRODUCT_URL ''S2'') = None"
    by (simp add: untitled_env_def example_env_def)
  have fail': "required_field_failure (site untitled_env (PRODUCT_URL ''S2'')) = Some TimeoutException"
    by (simp add: untitled_env_def broken_failure)
  from required_field_failure_ends_loop [OF pre' nav' fail', of "[''S3'']"]
  obtain s3 where
    "products_loop untitled_env 3 1 ([''S1''] @ ''S2'' # [''S3'']) empty_state =
       (Inl TimeoutException, s3)"
    "files s3 = files ?s1" "visited s3 = visited ?s1 @ [PRODUCT_URL ''S2'']"
    by blast
  with f1 v1 have b: "\<exists>s2. products_loop untitled_env 3 1 [''S1'', ''S2'', ''S3''] empty_state =
          (Inl TimeoutException, s2) \<and>
        files s2 ''output/S1/data.txt'' = Some (Text (example_metadata ''S1'')) \<and>
        files s2 ''output/S3/data.txt'' = None \<and>
        visited s2 = [PRODUCT_URL ''S1'', PRODUCT_URL ''S2'']"
    by (intro exI [of _ s3]) simp
  from a b show ?thesis by blast
qed

text \<open>
  The run does not go on to the next identifier: the listing gives \<open>S1\<close> and \<open>S2\<close>, the
  page of \<open>S1\<close> has no price element, the page of \<open>S2\<close> can be processed; the run ends
  with the exception of \<open>S1\<close>, and \<open>S2\<close> is neither visited nor written.
\<close>

theorem required_field_failure_counterexample:
  "required_field_failure (site failing_env (PRODUCT_URL ''S1'')) = Some NoSuchElementException \<and>
   collect_skus (product_cards failing_env) = Inr [''S1'', ''S2''] \<and>
   fst (scrape_product failing_env 2 2 ''S2'' empty_state) = Inr () \<and>
   scrape_products failing_env empty_state = Some (Inl NoSuchElementException, failing_run_state) \<and>
   PRODUCT_URL ''S2'' \<notin> set (visited failing_run_state) \<and>
   files failing_run_state ''output/S2/data.txt'' = None"
proof -
  have "site failing_env (PRODUCT_URL ''S1'') = example_page\<lparr>price_span := None\<rparr>"
    by (simp add: failing_env_def)
  then show ?thesis
    by (simp add: broken_failure failing_skus failing_second_alone failing_run)
       (simp add: failing_run_state_def PRODUCT_URL_def LISTING_URL_def)
qed

text \<open>
  C5. Whenever \<open>scrape_products\<close> returns, normally or with an exception out of the
  body of the \<open>try\<close>, the browser session it launched has been released; when the
  output directory cannot be made or the launch itself fails, both before the \<open>try\<close>,
  there is no session and the state of the browser is untouched. The run returns
  whenever the scrolling loop stops.
\<close>

theorem browser_released_on_every_exit:
  "(\<forall>r s'. scrape_products env s = Some (r, s') \<longrightarrow>
      browser s' =
        (if mkdir env OUTPUT_DIR = None \<and> launch env = None then Released else browser s)) \<and>
   (scroll_to_load_all (scroll_heights env) \<noteq> None \<longrightarrow> scrape_products env s \<noteq> None)"
proof (intro conjI allI impI)
  fix r s' assume "scrape_products env s = Some (r, s')"
  then show "browser s' =
      (if mkdir env OUTPUT_DIR = None \<and> launch env = None then Released else browser s)"
    by (auto simp: scrape_products_def makedirs_cases create_webdriver_def Let_def
             split: option.splits sum.splits prod.splits)
next
  assume "scroll_to_load_all (scroll_heights env) \<noteq> None"
  then have "run_body env (add_dir OUTPUT_DIR s\<lparr>browser := Active\<rparr>) \<noteq> None"
    by (rule run_body_total)
  then show "scrape_products env s \<noteq> None"
    by (auto simp: scrape_products_def makedirs_cases create_webdriver_def Let_def
             split: option.splits sum.splits prod.splits)
qed

theorem browser_released_on_every_exit_witness:
  "(\<exists>s'. scrape_products example_env empty_state = Some (Inr (), s') \<and> browser s' = Released) \<and>
   (\<exists>s'. scrape_products failing_env empty_state = Some (Inl NoSuchElementException, s') \<and>
      browser s' = Released)"
proof -
  obtain s1 where r1: "scrape_products example_env empty_state = Some (Inr (), s1)"
    using example_run by blast
  have "mkdir example_env OUTPUT_DIR = None \<and> launch example_env = None"
    by (simp add: example_env_def)
  with browser_released_on_every_exit [of example_env empty_state] r1
  have b1: "browser s1 = Released" by simp
  have "mkdir failing_env OUTPUT_DIR = None \<and> launch failing_env = None"
    by (simp add: failing_env_def example_env_def)
  with browser_released_on_every_exit [of failing_env empty_state] failing_run
  have b2: "browser failing_run_state = Released" by simp
  from r1 b1 failing_run b2 show ?thesis by blast
qed

end
